theory Spec2Isabelle
  imports Main "HOL-Library.Word"
begin

section \<open>Values\<close>

text \<open>
  \<^verbatim>\<open>backend/app/models.py\<close> is a module of SQLModel classes: every class is a list of
  annotated fields with \<^verbatim>\<open>Field(...)\<close> arguments, and the table classes add
  \<^verbatim>\<open>Relationship(...)\<close> attributes. The classes are embedded as data (one constant per
  class, field by field), and the behaviour the declarations stand for (validation of a
  payload against a class, the constraints of the table a class declares, the cascade of a
  delete) is given by functions over that data.

  A Python value that reaches a field. A \<^verbatim>\<open>str\<close> is a list of characters, one per code
  point, so that \<open>length\<close> is Python's \<^verbatim>\<open>len\<close>. A \<^verbatim>\<open>Decimal\<close> is what
  \<^verbatim>\<open>as_tuple()\<close> returns: sign, digits, exponent (or a non-finite value). A payload value
  is the value as pydantic reads it for the field it is given to; the coercions of lax mode
  (a numeric string for an \<^verbatim>\<open>int\<close> field, a string for a \<^verbatim>\<open>UUID\<close> field) are done by
  the caller, and a value of another kind stands for an input that cannot be coerced.
\<close>

type_synonym uuid = "128 word"

datatype decimal = Dec bool "nat list" int | NonFinite

datatype pyval =
    VNone
  | VBool bool
  | VInt int
  | VStr string
  | VDecimal decimal
  | VUuid uuid

fun digits10 :: "nat \<Rightarrow> nat list" where
  "digits10 n = (if n < 10 then [n] else digits10 (n div 10) @ [n mod 10])"

declare digits10.simps [simp del]

text \<open>\<^verbatim>\<open>Decimal(i)\<close> for an \<^verbatim>\<open>int\<close>: the digits of \<open>\<bar>i\<bar>\<close>, exponent 0.\<close>

definition decimal_of_int :: "int \<Rightarrow> decimal" where
  "decimal_of_int i = Dec (i < 0) (digits10 (nat \<bar>i\<bar>)) 0"

section \<open>Field declarations\<close>

text \<open>
  The keyword arguments of \<^verbatim>\<open>Field(...)\<close> that the module uses. \<open>Field\<close> is the call
  with no argument; a declaration updates it, so
  \<^verbatim>\<open>Field(unique=True, index=True, max_length=255)\<close> is
  \<open>Field\<lparr>unique := True, index := True, max_length := Some 255\<rparr>\<close>. A plain default
  (\<^verbatim>\<open>is_active: bool = True\<close>) is the argument \<^verbatim>\<open>default\<close>. \<^verbatim>\<open>foreign_key="user.id"\<close>
  is the pair of table and column.
\<close>

datatype factory = uuid4

record field_info =
  default_value :: "pyval option"
  default_factory :: "factory option"
  min_length :: "nat option"
  max_length :: "nat option"
  ge :: "int option"
  max_digits :: "nat option"
  decimal_places :: "nat option"
  primary_key :: bool
  unique :: bool
  index :: bool
  foreign_key :: "(string \<times> string) option"
  nullable :: "bool option"
  ondelete :: "string option"

definition Field :: field_info where
  "Field = \<lparr>default_value = None, default_factory = None, min_length = None,
     max_length = None, ge = None, max_digits = None, decimal_places = None,
     primary_key = False, unique = False, index = False, foreign_key = None,
     nullable = None, ondelete = None\<rparr>"

datatype ftype = TBool | TInt | TStr | TEmailStr | TDecimal | TUUID

text \<open>An annotation is \<^verbatim>\<open>T\<close> or \<^verbatim>\<open>T | None\<close>.\<close>

datatype annotation = Ty ftype | Optional ftype

type_synonym field = "string \<times> annotation \<times> field_info"

datatype relationship =
  Relationship (rel_name: string) (rel_target: string) (back_populates: string)
    (cascade_delete: bool)

record model =
  classname :: string
  tablename :: "string option"
  model_fields :: "field list"
  relationships :: "relationship list"

text \<open>\<^verbatim>\<open>class C(SQLModel)\<close>: the fields in the order of the class body.\<close>

definition sqlmodel :: "string \<Rightarrow> field list \<Rightarrow> model" where
  "sqlmodel c fs = \<lparr>classname = c, tablename = None, model_fields = fs, relationships = []\<rparr>"

text \<open>
  \<^verbatim>\<open>class C(Base)\<close>: pydantic collects the fields of the base in their order, a field the
  class body declares again takes the new declaration in the old place, and the new fields
  follow.
\<close>

definition extends :: "string \<Rightarrow> model \<Rightarrow> field list \<Rightarrow> model" where
  "extends c base own =
     \<lparr>classname = c, tablename = None,
      model_fields =
        map (\<lambda>f. case find (\<lambda>g. fst g = fst f) own of Some g \<Rightarrow> g | None \<Rightarrow> f)
          (model_fields base)
        @ filter (\<lambda>g. fst g \<notin> set (map fst (model_fields base))) own,
      relationships = []\<rparr>"

text \<open>
  \<^verbatim>\<open>table=True\<close>: the class is mapped to a table, named after the class in lower case, and
  carries the relationship attributes of its body.
\<close>

definition table_class :: "string \<Rightarrow> relationship list \<Rightarrow> model \<Rightarrow> model" where
  "table_class t rels m = m\<lparr>tablename := Some t, relationships := rels\<rparr>"

section \<open>The classes of models.py\<close>

definition UserBase :: model where
  "UserBase = sqlmodel ''UserBase''
     [(''email'', Ty TEmailStr, Field\<lparr>unique := True, index := True, max_length := Some 255\<rparr>),
      (''is_active'', Ty TBool, Field\<lparr>default_value := Some (VBool True)\<rparr>),
      (''is_superuser'', Ty TBool, Field\<lparr>default_value := Some (VBool False)\<rparr>),
      (''full_name'', Optional TStr, Field\<lparr>default_value := Some VNone, max_length := Some 255\<rparr>)]"


definition UserRegister :: model where
  "UserRegister = sqlmodel ''UserRegister''
     [(''email'', Ty TEmailStr, Field\<lparr>max_length := Some 255\<rparr>),
      (''password'', Ty TStr, Field\<lparr>min_length := Some 8, max_length := Some 40\<rparr>),
      (''full_name'', Optional TStr, Field\<lparr>default_value := Some VNone, max_length := Some 255\<rparr>)]"

definition UserUpdate :: model where
  "UserUpdate = extends ''UserUpdate'' UserBase
     [(''email'', Optional TEmailStr, Field\<lparr>default_value := Some VNone, max_length := Some 255\<rparr>),
      (''password'', Optional TStr,
         Field\<lparr>default_value := Some VNone, min_length := Some 8, max_length := Some 40\<rparr>)]"

definition UserUpdateMe :: model where
  "UserUpdateMe = sqlmodel ''UserUpdateMe''
     [(''full_name'', Optional TStr, Field\<lparr>default_value := Some VNone, max_length := Some 255\<rparr>),
      (''email'', Optional TEmailStr, Field\<lparr>default_value := Some VNone, max_length := Some 255\<rparr>)]"

definition UpdatePassword :: model where
  "UpdatePassword = sqlmodel ''UpdatePassword''
     [(''current_password'', Ty TStr, Field\<lparr>min_length := Some 8, max_length := Some 40\<rparr>),
      (''new_password'', Ty TStr, Field\<lparr>min_length := Some 8, max_length := Some 40\<rparr>)]"

definition User :: model where
  "User = table_class ''user''
     [Relationship ''items'' ''Item'' ''owner'' True,
      Relationship ''orders'' ''Order'' ''user'' True]
     (extends ''User'' UserBase
       [(''id'', Ty TUUID, Field\<lparr>default_factory := Some uuid4, primary_key := True\<rparr>),
        (''hashed_password'', Ty TStr, Field)])"

definition UserPublic :: model where
  "UserPublic = extends ''UserPublic'' UserBase [(''id'', Ty TUUID, Field)]"

definition ItemBase :: model where
  "ItemBase = sqlmodel ''ItemBase''
     [(''title'', Ty TStr, Field\<lparr>min_length := Some 1, max_length := Some 255\<rparr>),
      (''description'', Optional TStr, Field\<lparr>default_value := Some VNone, max_length := Some 255\<rparr>)]"

definition ItemCreate :: model where
  "ItemCreate = extends ''ItemCreate'' ItemBase []"

definition ItemUpdate :: model where
  "ItemUpdate = extends ''ItemUpdate'' ItemBase
     [(''title'', Optional TStr,
         Field\<lparr>default_value := Some VNone, min_length := Some 1, max_length := Some 255\<rparr>)]"

definition Item :: model where
  "Item = table_class ''item''
     [Relationship ''owner'' ''User'' ''items'' False]
     (extends ''Item'' ItemBase
       [(''id'', Ty TUUID, Field\<lparr>default_factory := Some uuid4, primary_key := True\<rparr>),
        (''title'', Ty TStr, Field\<lparr>max_length := Some 255\<rparr>),
        (''owner_id'', Ty TUUID,
           Field\<lparr>foreign_key := Some (''user'', ''id''), nullable := Some False,
             ondelete := Some ''CASCADE''\<rparr>)])"

definition ItemPublic :: model where
  "ItemPublic = extends ''ItemPublic'' ItemBase
     [(''id'', Ty TUUID, Field), (''owner_id'', Ty TUUID, Field)]"

definition BeverageBase :: model where
  "BeverageBase = sqlmodel ''BeverageBase''
     [(''name'', Ty TStr, Field\<lparr>min_length := Some 1, max_length := Some 255\<rparr>),
      (''description'', Optional TStr, Field\<lparr>default_value := Some VNone, max_length := Some 255\<rparr>),
      (''price'', Ty TDecimal,
         Field\<lparr>default_value := Some (VInt 0), max_digits := Some 5, decimal_places := Some 3\<rparr>),
      (''inventory'', Ty TInt, Field\<lparr>ge := Some 0\<rparr>)]"

definition BeverageCreate :: model where
  "BeverageCreate = extends ''BeverageCreate'' BeverageBase []"

definition BeverageUpdate :: model where
  "BeverageUpdate = extends ''BeverageUpdate'' BeverageBase
     [(''name'', Optional TStr,
         Field\<lparr>default_value := Some VNone, min_length := Some 1, max_length := Some 255\<rparr>),
      (''price'', Ty TDecimal,
         Field\<lparr>default_value := Some (VInt 0), max_digits := Some 5, decimal_places := Some 3\<rparr>),
      (''inventory'', Optional TInt, Field\<lparr>default_value := Some VNone, ge := Some 0\<rparr>)]"

definition Beverage :: model where
  "Beverage = table_class ''beverage'' []
     (extends ''Beverage'' BeverageBase
       [(''id'', Ty TUUID, Field\<lparr>default_factory := Some uuid4, primary_key := True\<rparr>)])"

definition BeveragePublic :: model where
  "BeveragePublic = extends ''BeveragePublic'' BeverageBase [(''id'', Ty TUUID, Field)]"

definition OrderBase :: model where
  "OrderBase = sqlmodel ''OrderBase''
     [(''user_id'', Ty TUUID, Field\<lparr>foreign_key := Some (''user'', ''id''), nullable := Some False\<rparr>),
      (''total_price'', Ty TDecimal,
         Field\<lparr>default_value := Some (VInt 0), max_digits := Some 10, decimal_places := Some 2\<rparr>),
      (''status'', Ty TStr, Field\<lparr>default_value := Some (VStr ''pending''), max_length := Some 50\<rparr>)]"

definition OrderCreate :: model where
  "OrderCreate = extends ''OrderCreate'' OrderBase []"

definition OrderUpdate :: model where
  "OrderUpdate = extends ''OrderUpdate'' OrderBase
     [(''status'', Optional TStr, Field\<lparr>default_value := Some VNone, max_length := Some 50\<rparr>)]"

definition Order :: model where
  "Order = table_class ''order''
     [Relationship ''user'' ''User'' ''orders'' False,
      Relationship ''order_details'' ''OrderDetail'' ''order'' True]
     (extends ''Order'' OrderBase
       [(''id'', Ty TUUID, Field\<lparr>default_factory := Some uuid4, primary_key := True\<rparr>)])"

definition OrderPublic :: model where
  "OrderPublic = extends ''OrderPublic'' OrderBase [(''id'', Ty TUUID, Field)]"

definition OrderDetailBase :: model where
  "OrderDetailBase = sqlmodel ''OrderDetailBase''
     [(''order_id'', Ty TUUID, Field\<lparr>foreign_key := Some (''order'', ''id''), nullable := Some False\<rparr>),
      (''item_id'', Ty TUUID, Field\<lparr>foreign_key := Some (''item'', ''id''), nullable := Some False\<rparr>),
      (''quantity'', Ty TInt, Field\<lparr>ge := Some 1\<rparr>),
      (''price'', Ty TDecimal,
         Field\<lparr>default_value := Some (VInt 0), max_digits := Some 10, decimal_places := Some 2\<rparr>)]"

definition OrderDetailCreate :: model where
  "OrderDetailCreate = extends ''OrderDetailCreate'' OrderDetailBase []"

definition OrderDetailUpdate :: model where
  "OrderDetailUpdate = extends ''OrderDetailUpdate'' OrderDetailBase
     [(''quantity'', Optional TInt, Field\<lparr>default_value := Some VNone, ge := Some 1\<rparr>),
      (''price'', Optional TDecimal,
         Field\<lparr>default_value := Some VNone, max_digits := Some 10, decimal_places := Some 2\<rparr>)]"

definition OrderDetail :: model where
  "OrderDetail = table_class ''orderdetail''
     [Relationship ''order'' ''Order'' ''order_details'' False]
     (extends ''OrderDetail'' OrderDetailBase
       [(''id'', Ty TUUID, Field\<lparr>default_factory := Some uuid4, primary_key := True\<rparr>)])"

definition OrderDetailPublic :: model where
  "OrderDetailPublic = extends ''OrderDetailPublic'' OrderDetailBase [(''id'', Ty TUUID, Field)]"

definition Message :: model where
  "Message = sqlmodel ''Message'' [(''message'', Ty TStr, Field)]"

definition Token :: model where
  "Token = sqlmodel ''Token''
     [(''access_token'', Ty TStr, Field),
      (''token_type'', Ty TStr, Field\<lparr>default_value := Some (VStr ''bearer'')\<rparr>)]"

definition TokenPayload :: model where
  "TokenPayload = sqlmodel ''TokenPayload''
     [(''sub'', Optional TStr, Field\<lparr>default_value := Some VNone\<rparr>)]"

definition NewPassword :: model where
  "NewPassword = sqlmodel ''NewPassword''
     [(''token'', Ty TStr, Field),
      (''new_password'', Ty TStr, Field\<lparr>min_length := Some 8, max_length := Some 40\<rparr>)]"

text \<open>The mapped classes, as \<^verbatim>\<open>SQLModel.metadata\<close> holds them.\<close>

definition metadata :: "model list" where
  "metadata = [User, Item, Beverage, Order, OrderDetail]"

section \<open>Validation\<close>

text \<open>
  What the module imports and does not define: \<^verbatim>\<open>EmailStr\<close> (the address as the
  email validator normalises it, or a failure) and the value \<^verbatim>\<open>uuid.uuid4\<close> returns when
  a default factory is called.
\<close>

record env =
  email_validator :: "string \<Rightarrow> string option"
  new_uuid :: uuid

text \<open>The error types of pydantic, by their names.\<close>

datatype verror =
    missing
  | bool_type
  | int_type
  | string_type
  | decimal_type
  | uuid_type
  | string_too_short
  | string_too_long
  | greater_than_equal
  | finite_number
  | decimal_max_digits
  | decimal_max_places
  | decimal_whole_digits
  | value_error

fun type_error :: "ftype \<Rightarrow> verror" where
  "type_error TBool = bool_type"
| "type_error TInt = int_type"
| "type_error TStr = string_type"
| "type_error TEmailStr = string_type"
| "type_error TDecimal = decimal_type"
| "type_error TUUID = uuid_type"

definition check_str :: "field_info \<Rightarrow> string \<Rightarrow> verror option" where
  "check_str info s =
     (case min_length info of
        Some lo \<Rightarrow>
          if length s < lo then Some string_too_short
          else (case max_length info of
                  Some hi \<Rightarrow> if hi < length s then Some string_too_long else None
                | None \<Rightarrow> None)
      | None \<Rightarrow>
          (case max_length info of
             Some hi \<Rightarrow> if hi < length s then Some string_too_long else None
           | None \<Rightarrow> None))"

definition check_int :: "field_info \<Rightarrow> int \<Rightarrow> verror option" where
  "check_int info i =
     (case ge info of
        Some lo \<Rightarrow> if i < lo then Some greater_than_equal else None
      | None \<Rightarrow> None)"

text \<open>
  The check of a \<^verbatim>\<open>Decimal\<close> field: the value must be finite; with \<^verbatim>\<open>max_digits\<close> or
  \<^verbatim>\<open>decimal_places\<close> its digits are counted from the tuple: a non-negative exponent adds
  that many digits and no decimals, a negative one gives \<open>-exponent\<close> decimals and at
  least as many digits. The sign of the value is not read.
\<close>

definition check_decimal :: "field_info \<Rightarrow> decimal \<Rightarrow> verror option" where
  "check_decimal info d =
     (case d of
        NonFinite \<Rightarrow> Some finite_number
      | Dec sign ds e \<Rightarrow>
          (let decimals = (if 0 \<le> e then 0 else nat (- e));
               digits = (if 0 \<le> e then length ds + nat e else max (length ds) (nat (- e)))
           in if (case max_digits info of Some m \<Rightarrow> m < digits | None \<Rightarrow> False)
              then Some decimal_max_digits
              else if (case decimal_places info of Some p \<Rightarrow> p < decimals | None \<Rightarrow> False)
              then Some decimal_max_places
              else if (case (max_digits info, decimal_places info) of
                         (Some m, Some p) \<Rightarrow> m - p < digits - decimals
                       | _ \<Rightarrow> False)
              then Some decimal_whole_digits
              else None))"

definition result :: "verror option \<Rightarrow> pyval \<Rightarrow> verror + pyval" where
  "result e v = (case e of Some err \<Rightarrow> Inl err | None \<Rightarrow> Inr v)"

fun validate_type :: "env \<Rightarrow> ftype \<Rightarrow> field_info \<Rightarrow> pyval \<Rightarrow> verror + pyval" where
  "validate_type env TBool info (VBool b) = Inr (VBool b)"
| "validate_type env TInt info (VInt i) = result (check_int info i) (VInt i)"
| "validate_type env TStr info (VStr s) = result (check_str info s) (VStr s)"
| "validate_type env TEmailStr info (VStr s) =
     (case check_str info s of
        Some err \<Rightarrow> Inl err
      | None \<Rightarrow>
          (case email_validator env s of
             None \<Rightarrow> Inl value_error
           | Some normalized \<Rightarrow> Inr (VStr normalized)))"
| "validate_type env TDecimal info (VDecimal d) = result (check_decimal info d) (VDecimal d)"
| "validate_type env TDecimal info (VInt i) =
     result (check_decimal info (decimal_of_int i)) (VDecimal (decimal_of_int i))"
| "validate_type env TUUID info (VUuid u) = Inr (VUuid u)"
| "validate_type env t info v = Inl (type_error t)"

fun validate_value :: "env \<Rightarrow> annotation \<Rightarrow> field_info \<Rightarrow> pyval \<Rightarrow> verror + pyval" where
  "validate_value env (Optional t) info VNone = Inr VNone"
| "validate_value env (Optional t) info v = validate_type env t info v"
| "validate_value env (Ty t) info v = validate_type env t info v"

text \<open>
  A payload is a dict. A validated object holds one attribute per field of its class, in
  the order of the fields, and the names of the fields the payload set
  (\<^verbatim>\<open>model_fields_set\<close>). A key of the payload that names no field is ignored
  (\<^verbatim>\<open>extra='ignore'\<close>, pydantic's default); a field the payload leaves out takes its
  default, which is not validated, or is reported missing when it has none.
\<close>

type_synonym payload = "string \<rightharpoonup> pyval"

record model_instance =
  attrs :: "(string \<times> pyval) list"
  fields_set :: "string list"

fun validate_field :: "env \<Rightarrow> payload \<Rightarrow> field \<Rightarrow> (string \<times> verror) + (string \<times> pyval \<times> bool)" where
  "validate_field env p (n, ann, info) =
     (case p n of
        Some v \<Rightarrow>
          (case validate_value env ann info v of
             Inl err \<Rightarrow> Inl (n, err)
           | Inr v' \<Rightarrow> Inr (n, v', True))
      | None \<Rightarrow>
          (case default_value info of
             Some d \<Rightarrow> Inr (n, d, False)
           | None \<Rightarrow>
               (case default_factory info of
                  Some uuid4 \<Rightarrow> Inr (n, VUuid (new_uuid env), False)
                | None \<Rightarrow> Inl (n, missing))))"

fun lefts :: "('a + 'b) list \<Rightarrow> 'a list" where
  "lefts [] = []"
| "lefts (Inl a # xs) = a # lefts xs"
| "lefts (Inr b # xs) = lefts xs"

fun rights :: "('a + 'b) list \<Rightarrow> 'b list" where
  "rights [] = []"
| "rights (Inl a # xs) = rights xs"
| "rights (Inr b # xs) = b # rights xs"

definition model_validate :: "env \<Rightarrow> model \<Rightarrow> payload \<Rightarrow> (string \<times> verror) list + model_instance" where
  "model_validate env m p =
     (let rs = map (validate_field env p) (model_fields m)
      in if lefts rs = []
         then Inr \<lparr>attrs = map (\<lambda>(n, v, s). (n, v)) (rights rs),
                   fields_set = map fst (filter (\<lambda>(n, v, s). s) (rights rs))\<rparr>
         else Inl (lefts rs))"

definition errors_of :: "('e list + 'a) \<Rightarrow> 'e list" where
  "errors_of r = (case r of Inl es \<Rightarrow> es | Inr obj \<Rightarrow> [])"

text \<open>
  For the examples: an environment whose email validator accepts a string with an
  \<open>@\<close> and returns it as it is.
\<close>

definition plain_env :: env where
  "plain_env =
     \<lparr>email_validator = (\<lambda>s. if CHR ''@'' \<in> set s then Some s else None), new_uuid = 7\<rparr>"

section \<open>Objects and rows\<close>

text \<open>
  A row of a table, and an object built from another object, are attribute lists.
  \<open>col\<close> reads an attribute; one that is not there reads as \<^verbatim>\<open>None\<close> (SQL's NULL).
  \<open>setattr\<close> assigns one attribute.
\<close>

type_synonym row = "(string \<times> pyval) list"

definition col :: "row \<Rightarrow> string \<Rightarrow> pyval" where
  "col r c = (case map_of r c of Some v \<Rightarrow> v | None \<Rightarrow> VNone)"

fun setattr :: "row \<Rightarrow> string \<Rightarrow> pyval \<Rightarrow> row" where
  "setattr [] k v = [(k, v)]"
| "setattr ((k', v') # r) k v = (if k' = k then (k, v) # r else (k', v') # setattr r k v)"

text \<open>\<^verbatim>\<open>obj.model_dump(exclude_unset=True)\<close>: the attributes the payload set.\<close>

definition model_dump_exclude_unset :: "model_instance \<Rightarrow> (string \<times> pyval) list" where
  "model_dump_exclude_unset obj = filter (\<lambda>(n, v). n \<in> set (fields_set obj)) (attrs obj)"

text \<open>
  \<^verbatim>\<open>row.sqlmodel_update(d)\<close> of SQLModel for a dict \<open>d\<close>: every key of \<open>d\<close> that is a
  field of the row's class is assigned; the other attributes are not touched.
\<close>

fun sqlmodel_update :: "model \<Rightarrow> row \<Rightarrow> (string \<times> pyval) list \<Rightarrow> row" where
  "sqlmodel_update m r [] = r"
| "sqlmodel_update m r ((k, v) # d) =
     sqlmodel_update m (if k \<in> set (map fst (model_fields m)) then setattr r k v else r) d"

text \<open>
  \<^verbatim>\<open>C.model_validate(obj, update=extra)\<close>: the class is validated against the attributes of
  \<open>obj\<close>, those named in \<open>extra\<close> taken from there.
\<close>

definition model_validate_from ::
  "env \<Rightarrow> model \<Rightarrow> (string \<times> pyval) list \<Rightarrow> (string \<times> pyval) list \<Rightarrow>
     (string \<times> verror) list + model_instance" where
  "model_validate_from env m a extra = model_validate env m (map_of (extra @ a))"

section \<open>The tables the classes declare\<close>

text \<open>
  The constraints of a table come from the fields of its class: a column is nullable when
  \<^verbatim>\<open>nullable\<close> says so, and otherwise when it is no primary key and its annotation has
  \<^verbatim>\<open>| None\<close>; a primary key and a \<^verbatim>\<open>unique=True\<close> column admit no two rows with the same
  value; a \<^verbatim>\<open>foreign_key\<close> column holds NULL or a value of the column it names.
  The store enforces them (spec, sections 4.1 and 5).
\<close>

type_synonym database = "string \<Rightarrow> row list"

datatype dberror =
    NotNullViolation string string
  | UniqueViolation string string
  | ForeignKeyViolation string string
  | NoResultFound
  | NoSuchTable

definition table_of :: "model \<Rightarrow> string" where
  "table_of m = (case tablename m of Some t \<Rightarrow> t | None \<Rightarrow> [])"

definition primary_key_column :: "model \<Rightarrow> string" where
  "primary_key_column m =
     (case find (\<lambda>f. primary_key (snd (snd f))) (model_fields m) of
        Some f \<Rightarrow> fst f
      | None \<Rightarrow> [])"

definition column_nullable :: "field \<Rightarrow> bool" where
  "column_nullable f =
     (case nullable (snd (snd f)) of
        Some b \<Rightarrow> b
      | None \<Rightarrow>
          (if primary_key (snd (snd f)) then False
           else (case fst (snd f) of Optional t \<Rightarrow> True | Ty t \<Rightarrow> False)))"

definition not_null_violation :: "row \<Rightarrow> field \<Rightarrow> bool" where
  "not_null_violation r f = (col r (fst f) = VNone \<and> \<not> column_nullable f)"

definition unique_violation :: "row list \<Rightarrow> row \<Rightarrow> field \<Rightarrow> bool" where
  "unique_violation others r f =
     ((unique (snd (snd f)) \<or> primary_key (snd (snd f))) \<and> col r (fst f) \<noteq> VNone \<and>
      col r (fst f) \<in> (\<lambda>r'. col r' (fst f)) ` set others)"

definition foreign_key_violation :: "database \<Rightarrow> row \<Rightarrow> field \<Rightarrow> bool" where
  "foreign_key_violation db r f =
     (case foreign_key (snd (snd f)) of
        None \<Rightarrow> False
      | Some (t, c) \<Rightarrow>
          col r (fst f) \<noteq> VNone \<and> col r (fst f) \<notin> (\<lambda>r'. col r' c) ` set (db t))"

text \<open>
  The check of a row that is written, against the other rows of its table: the first
  column that is NULL where it may not be, then the first unique column whose value is
  taken, then the first foreign key that points nowhere.
\<close>

definition check_row :: "database \<Rightarrow> model \<Rightarrow> row list \<Rightarrow> row \<Rightarrow> dberror option" where
  "check_row db m others r =
     (case find (not_null_violation r) (model_fields m) of
        Some f \<Rightarrow> Some (NotNullViolation (table_of m) (fst f))
      | None \<Rightarrow>
     (case find (unique_violation others r) (model_fields m) of
        Some f \<Rightarrow> Some (UniqueViolation (table_of m) (fst f))
      | None \<Rightarrow>
     (case find (foreign_key_violation db r) (model_fields m) of
        Some f \<Rightarrow> Some (ForeignKeyViolation (table_of m) (fst f))
      | None \<Rightarrow> None)))"

definition insert_row :: "database \<Rightarrow> model \<Rightarrow> row \<Rightarrow> dberror + database" where
  "insert_row db m r =
     (case check_row db m (db (table_of m)) r of
        Some e \<Rightarrow> Inl e
      | None \<Rightarrow> Inr (db(table_of m := db (table_of m) @ [r])))"

definition has_key :: "model \<Rightarrow> pyval \<Rightarrow> row \<Rightarrow> bool" where
  "has_key m k r = (col r (primary_key_column m) = k)"

definition update_row :: "database \<Rightarrow> model \<Rightarrow> pyval \<Rightarrow> row \<Rightarrow> dberror + database" where
  "update_row db m k r =
     (if filter (has_key m k) (db (table_of m)) = [] then Inl NoResultFound
      else case check_row db m (filter (\<lambda>r'. \<not> has_key m k r') (db (table_of m))) r of
        Some e \<Rightarrow> Inl e
      | None \<Rightarrow>
          Inr (db(table_of m := map (\<lambda>r'. if has_key m k r' then r else r') (db (table_of m)))))"

subsection \<open>Delete and its cascade\<close>

text \<open>
  A delete of a parent row takes the rows of a child class with it when the parent class
  declares a \<^verbatim>\<open>Relationship(..., cascade_delete=True)\<close> to the child class, or when the
  child's foreign key to the parent's table is declared \<^verbatim>\<open>ondelete="CASCADE"\<close>. The
  child rows of a parent row are those whose foreign key to the parent's table holds the
  value of the column it names.
\<close>

definition cascades :: "model \<Rightarrow> model \<Rightarrow> bool" where
  "cascades parent child =
     ((\<exists>r \<in> set (relationships parent). rel_target r = classname child \<and> cascade_delete r) \<or>
      (\<exists>f \<in> set (model_fields child).
         (case foreign_key (snd (snd f)) of
            None \<Rightarrow> False
          | Some (t, c) \<Rightarrow> t = table_of parent \<and> ondelete (snd (snd f)) = Some ''CASCADE'')))"

definition refers :: "row \<Rightarrow> field \<Rightarrow> string \<Rightarrow> row list \<Rightarrow> bool" where
  "refers r f t parents =
     (case foreign_key (snd (snd f)) of
        None \<Rightarrow> False
      | Some (t', c) \<Rightarrow>
          t' = t \<and> col r (fst f) \<noteq> VNone \<and> col r (fst f) \<in> (\<lambda>p. col p c) ` set parents)"

definition children :: "database \<Rightarrow> model \<Rightarrow> string \<Rightarrow> row list \<Rightarrow> row list" where
  "children db child t parents =
     filter (\<lambda>r. \<exists>f \<in> set (model_fields child). refers r f t parents) (db (table_of child))"

text \<open>
  The rows a delete takes, table by table. The recursion follows the cascades of the
  mapped classes to the given depth; no chain of cascades among the classes of
  \<open>metadata\<close> is longer than their number.
\<close>

fun cascade :: "nat \<Rightarrow> database \<Rightarrow> model \<Rightarrow> row list \<Rightarrow> (string \<times> row list) list" where
  "cascade 0 db m rs = [(table_of m, rs)]"
| "cascade (Suc k) db m rs =
     (table_of m, rs) #
     concat (map (\<lambda>child. cascade k db child (children db child (table_of m) rs))
               (filter (cascades m) metadata))"

definition doomed_rows :: "(string \<times> row list) list \<Rightarrow> string \<Rightarrow> row list" where
  "doomed_rows doomed t = concat (map snd (filter (\<lambda>d. fst d = t) doomed))"

text \<open>
  A foreign key with no cascade holds the delete back: a row that stays and still refers
  to a row that goes is a violation, and the whole delete is rejected. The store is the
  external collaborator of the spec (section 5), which must guarantee atomic cascade
  deletes: the delete is one transaction, and its integrity is judged on the state after
  the whole cascade. A store that looks earlier, after each statement, finds every
  violation found here, since the rows that stay are never deleted later.
\<close>

definition dangling :: "database \<Rightarrow> (string \<times> row list) list \<Rightarrow> model \<times> field \<Rightarrow> bool" where
  "dangling db' doomed cf =
     (case foreign_key (snd (snd (snd cf))) of
        None \<Rightarrow> False
      | Some (t, c) \<Rightarrow>
          (\<exists>r \<in> set (db' (table_of (fst cf))). refers r (snd cf) t (doomed_rows doomed t)))"

definition foreign_keys :: "(model \<times> field) list" where
  "foreign_keys = concat (map (\<lambda>c. map (\<lambda>f. (c, f)) (model_fields c)) metadata)"

definition delete_row :: "database \<Rightarrow> model \<Rightarrow> pyval \<Rightarrow> dberror + database" where
  "delete_row db m k =
     (let rs = filter (has_key m k) (db (table_of m)) in
      if rs = [] then Inl NoResultFound
      else
        let doomed = cascade (length metadata) db m rs;
            db' = (\<lambda>t. filter (\<lambda>r. r \<notin> set (doomed_rows doomed t)) (db t))
        in case find (dangling db' doomed) foreign_keys of
             Some cf \<Rightarrow> Inl (ForeignKeyViolation (table_of (fst cf)) (fst (snd cf)))
           | None \<Rightarrow> Inr db')"

subsection \<open>Sequences of store operations\<close>

datatype operation =
    Insert string row
  | Update string pyval row
  | Delete string pyval

definition mapped_class :: "string \<Rightarrow> model option" where
  "mapped_class c = find (\<lambda>m. classname m = c) metadata"

fun execute :: "database \<Rightarrow> operation \<Rightarrow> dberror + database" where
  "execute db (Insert c r) =
     (case mapped_class c of None \<Rightarrow> Inl NoSuchTable | Some m \<Rightarrow> insert_row db m r)"
| "execute db (Update c k r) =
     (case mapped_class c of None \<Rightarrow> Inl NoSuchTable | Some m \<Rightarrow> update_row db m k r)"
| "execute db (Delete c k) =
     (case mapped_class c of None \<Rightarrow> Inl NoSuchTable | Some m \<Rightarrow> delete_row db m k)"

text \<open>A rejected operation is rolled back: the store is as it was.\<close>

fun run :: "database \<Rightarrow> operation list \<Rightarrow> database" where
  "run db [] = db"
| "run db (op # ops) = run (case execute db op of Inl e \<Rightarrow> db | Inr db' \<Rightarrow> db') ops"

definition empty_database :: database where
  "empty_database = (\<lambda>t. [])"

section \<open>The life cycle of a row\<close>

datatype api_error =
    ValidationError "(string \<times> verror) list"
  | StoreError dberror

text \<open>
  Modelled from the spec: the handler that creates a row is not in \<^verbatim>\<open>models.py\<close>.
  Section 3: rows are created via validated "Create" shapes; section 2: payloads are
  validated against the shapes and persisted as table rows. \<open>create\<close> validates the
  payload against the shape, builds the table class from the validated object (with the
  attributes the handler adds, such as the owner or the hashed password) and inserts the
  row.
\<close>

definition create ::
  "env \<Rightarrow> database \<Rightarrow> model \<Rightarrow> model \<Rightarrow> (string \<times> pyval) list \<Rightarrow> payload \<Rightarrow>
     api_error + database" where
  "create env db shape tbl extra p =
     (case model_validate env shape p of
        Inl errs \<Rightarrow> Inl (ValidationError errs)
      | Inr obj \<Rightarrow>
          (case model_validate_from env tbl (attrs obj) extra of
             Inl errs \<Rightarrow> Inl (ValidationError errs)
           | Inr new \<Rightarrow>
               (case insert_row db tbl (attrs new) of
                  Inl e \<Rightarrow> Inl (StoreError e)
                | Inr db' \<Rightarrow> Inr db')))"

text \<open>
  Modelled from the spec: the handler that updates a row is not in \<^verbatim>\<open>models.py\<close>.
  Section 3: rows are mutated via partial "Update" shapes, unset fields left unchanged;
  section 4.1: absent fields are no-ops. \<open>update\<close> validates the payload against the
  shape, assigns the fields the payload set to the stored row and writes it back.
\<close>

definition update ::
  "env \<Rightarrow> database \<Rightarrow> model \<Rightarrow> model \<Rightarrow> pyval \<Rightarrow> payload \<Rightarrow> api_error + database" where
  "update env db shape tbl k p =
     (case model_validate env shape p of
        Inl errs \<Rightarrow> Inl (ValidationError errs)
      | Inr obj \<Rightarrow>
          (case filter (has_key tbl k) (db (table_of tbl)) of
             [] \<Rightarrow> Inl (StoreError NoResultFound)
           | r # rs \<Rightarrow>
               (case update_row db tbl k (sqlmodel_update tbl r (model_dump_exclude_unset obj)) of
                  Inl e \<Rightarrow> Inl (StoreError e)
                | Inr db' \<Rightarrow> Inr db')))"

text \<open>
  Modelled from the spec: the registration handler is not in \<^verbatim>\<open>models.py\<close>. A user
  registers with a \<open>UserRegister\<close> payload; the row is a \<open>User\<close> built from the validated
  payload and the hash of its password (password hashing is an external collaborator,
  section 1: the function \<open>hash\<close>).
\<close>

definition register_user ::
  "env \<Rightarrow> (string \<Rightarrow> string) \<Rightarrow> database \<Rightarrow> payload \<Rightarrow> api_error + database" where
  "register_user env hash db p =
     create env db UserRegister User
       (case p ''password'' of
          Some (VStr pw) \<Rightarrow> [(''hashed_password'', VStr (hash pw))]
        | _ \<Rightarrow> [])
       p"

text \<open>\<^verbatim>\<open>PublicShape.model_validate(row).model_dump()\<close>: a row as a response shows it.\<close>

definition serialize :: "env \<Rightarrow> model \<Rightarrow> row \<Rightarrow> (string \<times> verror) list + (string \<times> pyval) list" where
  "serialize env m r =
     (case model_validate_from env m r [] of Inl errs \<Rightarrow> Inl errs | Inr obj \<Rightarrow> Inr (attrs obj))"

section \<open>Requests\<close>





section \<open>Example data\<close>

text \<open>
  Two users, Ann (1) and Bob (2). \<open>user_ann_again\<close> is a second row with Ann's email.
\<close>

definition user_ann :: row where
  "user_ann = [(''email'', VStr ''ann@x.org''), (''is_active'', VBool True),
          (''is_superuser'', VBool False), (''full_name'', VNone), (''id'', VUuid 1),
          (''hashed_password'', VStr ''k3'')]"

definition user_ann_again :: row where
  "user_ann_again = [(''email'', VStr ''ann@x.org''), (''is_active'', VBool True),
          (''is_superuser'', VBool False), (''full_name'', VStr ''Ann''), (''id'', VUuid 2),
          (''hashed_password'', VStr ''z9'')]"

definition user_bob :: row where
  "user_bob = [(''email'', VStr ''bob@x.org''), (''is_active'', VBool True),
          (''is_superuser'', VBool False), (''full_name'', VNone), (''id'', VUuid 2),
          (''hashed_password'', VStr ''q7'')]"

text \<open>
  Ann owns the item 10; the order 20 is Bob's, and its one line is for Ann's item.
  \<open>shop\<close> is the store after these five rows have been inserted into the empty store.
\<close>

definition item_mug :: row where
  "item_mug = [(''title'', VStr ''mug''), (''description'', VNone), (''id'', VUuid 10),
          (''owner_id'', VUuid 1)]"

definition order_bob :: row where
  "order_bob = [(''user_id'', VUuid 2), (''total_price'', VDecimal (Dec False [0] 0)),
          (''status'', VStr ''pending''), (''id'', VUuid 20)]"

definition line_mug :: row where
  "line_mug = [(''order_id'', VUuid 20), (''item_id'', VUuid 10), (''quantity'', VInt 1),
          (''price'', VDecimal (Dec False [0] 0)), (''id'', VUuid 30)]"

definition shop_inserts :: "operation list" where
  "shop_inserts =
     [Insert ''User'' user_ann, Insert ''User'' user_bob, Insert ''Item'' item_mug,
      Insert ''Order'' order_bob, Insert ''OrderDetail'' line_mug]"

definition shop :: database where
  "shop = run empty_database shop_inserts"



section \<open>Facts about validation\<close>

lemma errors_of_model_validate:
  "errors_of (model_validate env m p) = lefts (map (validate_field env p) (model_fields m))"
  by (simp add: errors_of_def model_validate_def Let_def)

lemma set_lefts: "set (lefts xs) = {a. Inl a \<in> set xs}"
  by (induction xs rule: lefts.induct) auto

lemma validate_field_name: "validate_field env p f = Inl (n, e) \<Longrightarrow> n = fst f"
  by (cases f) (auto split: option.splits sum.splits factory.splits)

lemma error_iff:
  "(n, e) \<in> set (errors_of (model_validate env m p)) \<longleftrightarrow>
     (\<exists>f \<in> set (model_fields m). fst f = n \<and> validate_field env p f = Inl (n, e))"
proof -
  have "(n, e) \<in> set (errors_of (model_validate env m p)) \<longleftrightarrow>
          (\<exists>f \<in> set (model_fields m). validate_field env p f = Inl (n, e))"
    unfolding errors_of_model_validate set_lefts
    by (simp only: set_map image_iff mem_Collect_eq) metis
  also have "\<dots> \<longleftrightarrow>
      (\<exists>f \<in> set (model_fields m). fst f = n \<and> validate_field env p f = Inl (n, e))"
    using validate_field_name by blast
  finally show ?thesis .
qed

lemma rejected_iff:
  "(\<exists>errs. model_validate env m p = Inl errs) \<longleftrightarrow> errors_of (model_validate env m p) \<noteq> []"
  by (auto simp: errors_of_def model_validate_def Let_def)

lemma accepted_iff:
  "(\<exists>obj. model_validate env m p = Inr obj) \<longleftrightarrow> errors_of (model_validate env m p) = []"
  by (auto simp: errors_of_def model_validate_def Let_def)

lemma rejected_by_error:
  "(n, e) \<in> set (errors_of (model_validate env m p)) \<Longrightarrow>
     \<exists>errs. model_validate env m p = Inl errs \<and> (n, e) \<in> set errs"
  by (cases "model_validate env m p") (auto simp: errors_of_def)

text \<open>Validation reads the payload at the names of the fields only.\<close>

lemma validate_field_cong:
  "p (fst f) = q (fst f) \<Longrightarrow> validate_field env p f = validate_field env q f"
  by (cases f) simp

lemma model_validate_cong:
  assumes "\<And>n. n \<in> set (map fst (model_fields m)) \<Longrightarrow> p n = q n"
  shows "model_validate env m p = model_validate env m q"
proof -
  have "map (validate_field env p) (model_fields m) = map (validate_field env q) (model_fields m)"
    using assms by (intro map_cong refl validate_field_cong) simp
  then show ?thesis unfolding model_validate_def by (simp only:)
qed

lemma attrs_names:
  assumes "model_validate env m p = Inr obj"
  shows "map fst (attrs obj) = map fst (model_fields m)"
proof -
  have ok: "lefts (map (validate_field env p) fs) = [] \<Longrightarrow>
        map fst (map (\<lambda>(n, v, s). (n, v)) (rights (map (validate_field env p) fs))) = map fst fs"
    for fs
  proof (induction fs)
    case Nil
    then show ?case by simp
  next
    case (Cons f fs)
    obtain n ann info where f: "f = (n, ann, info)" by (cases f)
    from Cons.prems obtain v s where r: "validate_field env p f = Inr (n, v, s)"
      unfolding f by (auto split: option.splits sum.splits factory.splits)
    with Cons show ?case by (simp add: f del: validate_field.simps)
  qed
  from assms have "lefts (map (validate_field env p) (model_fields m)) = []"
    and "attrs obj = map (\<lambda>(n, v, s). (n, v)) (rights (map (validate_field env p) (model_fields m)))"
    by (auto simp: model_validate_def Let_def split: if_splits)
  then show ?thesis using ok by simp
qed

lemma fields_ItemCreate:
  "model_fields ItemCreate =
     [(''title'', Ty TStr, Field\<lparr>min_length := Some 1, max_length := Some 255\<rparr>),
      (''description'', Optional TStr, Field\<lparr>default_value := Some VNone, max_length := Some 255\<rparr>)]"
  by (simp add: ItemCreate_def ItemBase_def extends_def sqlmodel_def)

lemma fields_Item:
  "model_fields Item =
     [(''title'', Ty TStr, Field\<lparr>max_length := Some 255\<rparr>),
      (''description'', Optional TStr, Field\<lparr>default_value := Some VNone, max_length := Some 255\<rparr>),
      (''id'', Ty TUUID, Field\<lparr>default_factory := Some uuid4, primary_key := True\<rparr>),
      (''owner_id'', Ty TUUID,
         Field\<lparr>foreign_key := Some (''user'', ''id''), nullable := Some False,
           ondelete := Some ''CASCADE''\<rparr>)]"
  by (simp add: Item_def ItemBase_def extends_def sqlmodel_def table_class_def)

lemma fields_BeverageCreate:
  "model_fields BeverageCreate =
     [(''name'', Ty TStr, Field\<lparr>min_length := Some 1, max_length := Some 255\<rparr>),
      (''description'', Optional TStr, Field\<lparr>default_value := Some VNone, max_length := Some 255\<rparr>),
      (''price'', Ty TDecimal,
         Field\<lparr>default_value := Some (VInt 0), max_digits := Some 5, decimal_places := Some 3\<rparr>),
      (''inventory'', Ty TInt, Field\<lparr>ge := Some 0\<rparr>)]"
  by (simp add: BeverageCreate_def BeverageBase_def extends_def sqlmodel_def)


lemma fields_TokenPayload:
  "model_fields TokenPayload = [(''sub'', Optional TStr, Field\<lparr>default_value := Some VNone\<rparr>)]"
  by (simp add: TokenPayload_def sqlmodel_def)

lemmas check_defs = Field_def check_str_def check_int_def check_decimal_def result_def

lemma short_title_rejected:
  assumes "p ''title'' = Some (VStr s)" and "length s < 1"
  shows "\<exists>errs. model_validate env ItemCreate p = Inl errs \<and>
           (''title'', string_too_short) \<in> set errs"
  using assms by (intro rejected_by_error) (simp add: error_iff fields_ItemCreate check_defs)

lemma title_in_range_accepted:
  assumes "p ''title'' = Some (VStr s)" and "1 \<le> length s" and "length s \<le> 255"
  shows "(''title'', e) \<notin> set (errors_of (model_validate env ItemCreate p))"
  using assms by (auto simp add: error_iff fields_ItemCreate check_defs)

lemma short_name_rejected:
  assumes "p ''name'' = Some (VStr s)" and "length s < 1"
  shows "\<exists>errs. model_validate env BeverageCreate p = Inl errs \<and>
           (''name'', string_too_short) \<in> set errs"
  using assms by (intro rejected_by_error) (simp add: error_iff fields_BeverageCreate check_defs)

lemma name_in_range_accepted:
  assumes "p ''name'' = Some (VStr s)" and "1 \<le> length s" and "length s \<le> 255"
  shows "(''name'', e) \<notin> set (errors_of (model_validate env BeverageCreate p))"
  using assms by (auto simp add: error_iff fields_BeverageCreate check_defs)



lemma fields_BeverageUpdate:
  "model_fields BeverageUpdate =
     [(''name'', Optional TStr,
         Field\<lparr>default_value := Some VNone, min_length := Some 1, max_length := Some 255\<rparr>),
      (''description'', Optional TStr, Field\<lparr>default_value := Some VNone, max_length := Some 255\<rparr>),
      (''price'', Ty TDecimal,
         Field\<lparr>default_value := Some (VInt 0), max_digits := Some 5, decimal_places := Some 3\<rparr>),
      (''inventory'', Optional TInt, Field\<lparr>default_value := Some VNone, ge := Some 0\<rparr>)]"
  by (simp add: BeverageUpdate_def BeverageBase_def extends_def sqlmodel_def)

lemma fields_OrderUpdate:
  "model_fields OrderUpdate =
     [(''user_id'', Ty TUUID, Field\<lparr>foreign_key := Some (''user'', ''id''), nullable := Some False\<rparr>),
      (''total_price'', Ty TDecimal,
         Field\<lparr>default_value := Some (VInt 0), max_digits := Some 10, decimal_places := Some 2\<rparr>),
      (''status'', Optional TStr, Field\<lparr>default_value := Some VNone, max_length := Some 50\<rparr>)]"
  by (simp add: OrderUpdate_def OrderBase_def extends_def sqlmodel_def)

lemma fields_OrderDetailUpdate:
  "model_fields OrderDetailUpdate =
     [(''order_id'', Ty TUUID, Field\<lparr>foreign_key := Some (''order'', ''id''), nullable := Some False\<rparr>),
      (''item_id'', Ty TUUID, Field\<lparr>foreign_key := Some (''item'', ''id''), nullable := Some False\<rparr>),
      (''quantity'', Optional TInt, Field\<lparr>default_value := Some VNone, ge := Some 1\<rparr>),
      (''price'', Optional TDecimal,
         Field\<lparr>default_value := Some VNone, max_digits := Some 10, decimal_places := Some 2\<rparr>)]"
  by (simp add: OrderDetailUpdate_def OrderDetailBase_def extends_def sqlmodel_def)

lemma fields_UserUpdate:
  "model_fields UserUpdate =
     [(''email'', Optional TEmailStr, Field\<lparr>default_value := Some VNone, max_length := Some 255\<rparr>),
      (''is_active'', Ty TBool, Field\<lparr>default_value := Some (VBool True)\<rparr>),
      (''is_superuser'', Ty TBool, Field\<lparr>default_value := Some (VBool False)\<rparr>),
      (''full_name'', Optional TStr, Field\<lparr>default_value := Some VNone, max_length := Some 255\<rparr>),
      (''password'', Optional TStr,
         Field\<lparr>default_value := Some VNone, min_length := Some 8, max_length := Some 40\<rparr>)]"
  by (simp add: UserUpdate_def UserBase_def extends_def sqlmodel_def)

lemma fields_ItemUpdate:
  "model_fields ItemUpdate =
     [(''title'', Optional TStr,
         Field\<lparr>default_value := Some VNone, min_length := Some 1, max_length := Some 255\<rparr>),
      (''description'', Optional TStr, Field\<lparr>default_value := Some VNone, max_length := Some 255\<rparr>)]"
  by (simp add: ItemUpdate_def ItemBase_def extends_def sqlmodel_def)

lemma names_UserPublic:
  "map fst (model_fields UserPublic) = [''email'', ''is_active'', ''is_superuser'', ''full_name'', ''id'']"
  by (simp add: UserPublic_def UserBase_def extends_def sqlmodel_def)

lemma names_User:
  "map fst (model_fields User) =
     [''email'', ''is_active'', ''is_superuser'', ''full_name'', ''id'', ''hashed_password'']"
  by (simp add: User_def UserBase_def extends_def sqlmodel_def table_class_def)


subsection \<open>The sign of a decimal\<close>

lemma check_decimal_sign: "check_decimal info (Dec s ds e) = check_decimal info (Dec s' ds e)"
  by (simp add: check_decimal_def)

lemma validate_value_sign:
  "map_sum id (\<lambda>v. ()) (validate_value env ann info (VDecimal (Dec s ds e))) =
   map_sum id (\<lambda>v. ()) (validate_value env ann info (VDecimal (Dec s' ds e)))"
proof -
  have "map_sum id (\<lambda>v. ()) (validate_type env t info (VDecimal (Dec s ds e))) =
        map_sum id (\<lambda>v. ()) (validate_type env t info (VDecimal (Dec s' ds e)))" for t
    using check_decimal_sign [of info s ds e s']
    by (cases t) (simp_all add: result_def split: option.splits)
  then show ?thesis by (cases ann) simp_all
qed

lemma validate_field_sign:
  "map_sum id (\<lambda>v. ()) (validate_field env (p(k \<mapsto> VDecimal (Dec s ds e))) f) =
   map_sum id (\<lambda>v. ()) (validate_field env (p(k \<mapsto> VDecimal (Dec s' ds e))) f)"
proof -
  obtain n ann info where f: "f = (n, ann, info)" by (cases f)
  show ?thesis
  proof (cases "n = k")
    case True
    have "map_sum id (\<lambda>v. ()) (validate_value env ann info (VDecimal (Dec s ds e))) =
          map_sum id (\<lambda>v. ()) (validate_value env ann info (VDecimal (Dec s' ds e)))"
      by (rule validate_value_sign)
    then show ?thesis
      unfolding f using True by (auto split: sum.splits)
  next
    case False
    then show ?thesis unfolding f by simp
  qed
qed

lemma lefts_map_sum: "lefts (map (map_sum id g) xs) = lefts xs"
  by (induction xs rule: lefts.induct) simp_all

lemma errors_sign:
  "errors_of (model_validate env m (p(k \<mapsto> VDecimal (Dec s ds e)))) =
   errors_of (model_validate env m (p(k \<mapsto> VDecimal (Dec s' ds e))))"
proof -
  have "map (map_sum id (\<lambda>v. ())) (map (validate_field env (p(k \<mapsto> VDecimal (Dec s ds e)))) (model_fields m)) =
        map (map_sum id (\<lambda>v. ())) (map (validate_field env (p(k \<mapsto> VDecimal (Dec s' ds e)))) (model_fields m))"
    using validate_field_sign [of env p k s ds e _ s'] by simp
  then have "lefts (map (validate_field env (p(k \<mapsto> VDecimal (Dec s ds e)))) (model_fields m)) =
        lefts (map (validate_field env (p(k \<mapsto> VDecimal (Dec s' ds e)))) (model_fields m))"
    using lefts_map_sum by metis
  then show ?thesis by (simp add: errors_of_model_validate)
qed

subsection \<open>Serialization\<close>

lemma serialize_cong:
  assumes "\<And>n. n \<in> set (map fst (model_fields m)) \<Longrightarrow> map_of r n = map_of r' n"
  shows "serialize env m r = serialize env m r'"
  using model_validate_cong [of m "map_of r" "map_of r'" env] assms
  by (simp add: serialize_def model_validate_from_def)

lemma serialize_names:
  "serialize env m r = Inr d \<Longrightarrow> map fst d = map fst (model_fields m)"
  by (auto simp: serialize_def model_validate_from_def dest: attrs_names split: sum.splits)

subsection \<open>Update shapes\<close>

lemma update_shapes_accept_empty_payload:
  "model_validate env UserUpdate Map.empty =
     Inr \<lparr>attrs = [(''email'', VNone), (''is_active'', VBool True), (''is_superuser'', VBool False),
                    (''full_name'', VNone), (''password'', VNone)], fields_set = []\<rparr>"
  "model_validate env ItemUpdate Map.empty =
     Inr \<lparr>attrs = [(''title'', VNone), (''description'', VNone)], fields_set = []\<rparr>"
  "model_validate env BeverageUpdate Map.empty =
     Inr \<lparr>attrs = [(''name'', VNone), (''description'', VNone), (''price'', VInt 0),
                    (''inventory'', VNone)], fields_set = []\<rparr>"
  by (simp_all add: model_validate_def fields_UserUpdate fields_ItemUpdate fields_BeverageUpdate
        check_defs)

section \<open>Facts about the tables\<close>

lemma fields_User:
  "model_fields User =
     [(''email'', Ty TEmailStr, Field\<lparr>unique := True, index := True, max_length := Some 255\<rparr>),
      (''is_active'', Ty TBool, Field\<lparr>default_value := Some (VBool True)\<rparr>),
      (''is_superuser'', Ty TBool, Field\<lparr>default_value := Some (VBool False)\<rparr>),
      (''full_name'', Optional TStr, Field\<lparr>default_value := Some VNone, max_length := Some 255\<rparr>),
      (''id'', Ty TUUID, Field\<lparr>default_factory := Some uuid4, primary_key := True\<rparr>),
      (''hashed_password'', Ty TStr, Field)]"
  by (simp add: User_def UserBase_def extends_def sqlmodel_def table_class_def)

lemma fields_Beverage:
  "model_fields Beverage =
     [(''name'', Ty TStr, Field\<lparr>min_length := Some 1, max_length := Some 255\<rparr>),
      (''description'', Optional TStr, Field\<lparr>default_value := Some VNone, max_length := Some 255\<rparr>),
      (''price'', Ty TDecimal,
         Field\<lparr>default_value := Some (VInt 0), max_digits := Some 5, decimal_places := Some 3\<rparr>),
      (''inventory'', Ty TInt, Field\<lparr>ge := Some 0\<rparr>),
      (''id'', Ty TUUID, Field\<lparr>default_factory := Some uuid4, primary_key := True\<rparr>)]"
  by (simp add: Beverage_def BeverageBase_def extends_def sqlmodel_def table_class_def)

lemma fields_Order:
  "model_fields Order =
     [(''user_id'', Ty TUUID, Field\<lparr>foreign_key := Some (''user'', ''id''), nullable := Some False\<rparr>),
      (''total_price'', Ty TDecimal,
         Field\<lparr>default_value := Some (VInt 0), max_digits := Some 10, decimal_places := Some 2\<rparr>),
      (''status'', Ty TStr, Field\<lparr>default_value := Some (VStr ''pending''), max_length := Some 50\<rparr>),
      (''id'', Ty TUUID, Field\<lparr>default_factory := Some uuid4, primary_key := True\<rparr>)]"
  by (simp add: Order_def OrderBase_def extends_def sqlmodel_def table_class_def)

lemma fields_OrderDetail:
  "model_fields OrderDetail =
     [(''order_id'', Ty TUUID, Field\<lparr>foreign_key := Some (''order'', ''id''), nullable := Some False\<rparr>),
      (''item_id'', Ty TUUID, Field\<lparr>foreign_key := Some (''item'', ''id''), nullable := Some False\<rparr>),
      (''quantity'', Ty TInt, Field\<lparr>ge := Some 1\<rparr>),
      (''price'', Ty TDecimal,
         Field\<lparr>default_value := Some (VInt 0), max_digits := Some 10, decimal_places := Some 2\<rparr>),
      (''id'', Ty TUUID, Field\<lparr>default_factory := Some uuid4, primary_key := True\<rparr>)]"
  by (simp add: OrderDetail_def OrderDetailBase_def extends_def sqlmodel_def table_class_def)

lemma table_of_simps:
  "table_of User = ''user''" "table_of Item = ''item''" "table_of Beverage = ''beverage''"
  "table_of Order = ''order''" "table_of OrderDetail = ''orderdetail''"
  by (simp_all add: table_of_def User_def Item_def Beverage_def Order_def OrderDetail_def
        table_class_def)

lemma classname_simps:
  "classname User = ''User''" "classname Item = ''Item''" "classname Beverage = ''Beverage''"
  "classname Order = ''Order''" "classname OrderDetail = ''OrderDetail''"
  by (simp_all add: User_def Item_def Beverage_def Order_def OrderDetail_def
        table_class_def extends_def)

lemma relationships_simps:
  "relationships User =
     [Relationship ''items'' ''Item'' ''owner'' True, Relationship ''orders'' ''Order'' ''user'' True]"
  "relationships Item = [Relationship ''owner'' ''User'' ''items'' False]"
  "relationships Beverage = []"
  "relationships Order =
     [Relationship ''user'' ''User'' ''orders'' False,
      Relationship ''order_details'' ''OrderDetail'' ''order'' True]"
  "relationships OrderDetail = [Relationship ''order'' ''Order'' ''order_details'' False]"
  by (simp_all add: User_def Item_def Beverage_def Order_def OrderDetail_def table_class_def)

lemma primary_key_column_simps:
  "primary_key_column User = ''id''" "primary_key_column Item = ''id''"
  "primary_key_column Beverage = ''id''" "primary_key_column Order = ''id''"
  "primary_key_column OrderDetail = ''id''"
  by (simp_all add: primary_key_column_def fields_User fields_Item fields_Beverage fields_Order
        fields_OrderDetail Field_def)

lemmas table_fields = fields_User fields_Item fields_Beverage fields_Order fields_OrderDetail

lemmas class_simps = table_of_simps classname_simps relationships_simps primary_key_column_simps

lemma cascades_User:
  "\<not> cascades User User" "cascades User Item" "\<not> cascades User Beverage"
  "cascades User Order" "\<not> cascades User OrderDetail"
  by (simp_all add: cascades_def class_simps table_fields Field_def)

lemma cascades_Item:
  "\<not> cascades Item User" "\<not> cascades Item Item" "\<not> cascades Item Beverage"
  "\<not> cascades Item Order" "\<not> cascades Item OrderDetail"
  by (simp_all add: cascades_def class_simps table_fields Field_def)

lemma cascades_Beverage:
  "\<not> cascades Beverage User" "\<not> cascades Beverage Item" "\<not> cascades Beverage Beverage"
  "\<not> cascades Beverage Order" "\<not> cascades Beverage OrderDetail"
  by (simp_all add: cascades_def class_simps table_fields Field_def)

lemma cascades_Order:
  "\<not> cascades Order User" "\<not> cascades Order Item" "\<not> cascades Order Beverage"
  "\<not> cascades Order Order" "cascades Order OrderDetail"
  by (simp_all add: cascades_def class_simps table_fields Field_def)

lemma cascades_OrderDetail:
  "\<not> cascades OrderDetail User" "\<not> cascades OrderDetail Item"
  "\<not> cascades OrderDetail Beverage" "\<not> cascades OrderDetail Order"
  "\<not> cascades OrderDetail OrderDetail"
  by (simp_all add: cascades_def class_simps table_fields Field_def)

lemmas cascades_simps = cascades_User cascades_Item cascades_Beverage cascades_Order
  cascades_OrderDetail

lemma cascade_Item: "cascade k db Item rs = [(''item'', rs)]"
  by (cases k) (simp_all add: metadata_def cascades_simps table_of_simps)

lemma cascade_Beverage: "cascade k db Beverage rs = [(''beverage'', rs)]"
  by (cases k) (simp_all add: metadata_def cascades_simps table_of_simps)

lemma cascade_OrderDetail: "cascade k db OrderDetail rs = [(''orderdetail'', rs)]"
  by (cases k) (simp_all add: metadata_def cascades_simps table_of_simps)

lemma cascade_Order:
  "cascade (Suc k) db Order rs =
     [(''order'', rs), (''orderdetail'', children db OrderDetail ''order'' rs)]"
  by (simp add: metadata_def cascades_simps table_of_simps cascade_OrderDetail)

lemma cascade_User:
  "cascade (Suc (Suc k)) db User rs =
     [(''user'', rs), (''item'', children db Item ''user'' rs),
      (''order'', children db Order ''user'' rs),
      (''orderdetail'', children db OrderDetail ''order'' (children db Order ''user'' rs))]"
  by (simp add: metadata_def cascades_simps table_of_simps cascade_Item cascade_OrderDetail)

lemma length_metadata: "length metadata = Suc (Suc 3)"
  by (simp add: metadata_def)

lemma children_Item:
  "children db Item ''user'' ps =
     filter (\<lambda>r. col r ''owner_id'' \<noteq> VNone \<and> col r ''owner_id'' \<in> (\<lambda>p. col p ''id'') ` set ps)
       (db ''item'')"
  by (simp add: children_def refers_def fields_Item table_of_simps Field_def)

lemma children_Order:
  "children db Order ''user'' ps =
     filter (\<lambda>r. col r ''user_id'' \<noteq> VNone \<and> col r ''user_id'' \<in> (\<lambda>p. col p ''id'') ` set ps)
       (db ''order'')"
  by (simp add: children_def refers_def fields_Order table_of_simps Field_def)

lemma children_OrderDetail:
  "children db OrderDetail ''order'' ps =
     filter (\<lambda>r. col r ''order_id'' \<noteq> VNone \<and> col r ''order_id'' \<in> (\<lambda>p. col p ''id'') ` set ps)
       (db ''orderdetail'')"
  by (simp add: children_def refers_def fields_OrderDetail table_of_simps Field_def)

lemma find_dangling:
  "find (dangling db' doomed) foreign_keys =
     find (dangling db' doomed)
       [(Item, (''owner_id'', Ty TUUID,
           Field\<lparr>foreign_key := Some (''user'', ''id''), nullable := Some False,
             ondelete := Some ''CASCADE''\<rparr>)),
        (Order, (''user_id'', Ty TUUID,
           Field\<lparr>foreign_key := Some (''user'', ''id''), nullable := Some False\<rparr>)),
        (OrderDetail, (''order_id'', Ty TUUID,
           Field\<lparr>foreign_key := Some (''order'', ''id''), nullable := Some False\<rparr>)),
        (OrderDetail, (''item_id'', Ty TUUID,
           Field\<lparr>foreign_key := Some (''item'', ''id''), nullable := Some False\<rparr>))]"
  by (simp add: foreign_keys_def metadata_def table_fields dangling_def Field_def)


lemma filter_not_in_filter: "filter (\<lambda>r. r \<notin> set (filter P xs)) xs = filter (\<lambda>r. \<not> P r) xs"
  by (rule filter_cong) auto

lemma image_key:
  assumes "rs \<noteq> []" and "\<forall>r \<in> set rs. col r c = k"
  shows "(\<lambda>p. col p c) ` set rs = {k}"
  using assms by (cases rs) auto

lemma delete_row_User:
  fixes db :: database and uid :: uuid
  defines "items \<equiv> filter (\<lambda>i. col i ''owner_id'' = VUuid uid) (db ''item'')"
    and "orders \<equiv> filter (\<lambda>r. col r ''user_id'' = VUuid uid) (db ''order'')"
  defines "gone \<equiv> \<lambda>d. col d ''order_id'' \<noteq> VNone \<and> col d ''order_id'' \<in> (\<lambda>r. col r ''id'') ` set orders"
  defines "db' \<equiv> \<lambda>t.
      if t = ''user'' then filter (\<lambda>u. col u ''id'' \<noteq> VUuid uid) (db ''user'')
      else if t = ''item'' then filter (\<lambda>i. col i ''owner_id'' \<noteq> VUuid uid) (db ''item'')
      else if t = ''order'' then filter (\<lambda>r. col r ''user_id'' \<noteq> VUuid uid) (db ''order'')
      else if t = ''orderdetail'' then filter (\<lambda>d. \<not> gone d) (db ''orderdetail'')
      else db t"
  assumes ex: "\<exists>u \<in> set (db ''user''). col u ''id'' = VUuid uid"
  shows "delete_row db User (VUuid uid) =
     (if \<exists>d \<in> set (db ''orderdetail''). \<not> gone d \<and> col d ''item_id'' \<noteq> VNone \<and>
            col d ''item_id'' \<in> (\<lambda>i. col i ''id'') ` set items
      then Inl (ForeignKeyViolation ''orderdetail'' ''item_id'')
      else Inr db')"
proof -
  define rs where "rs = filter (has_key User (VUuid uid)) (db ''user'')"
  have rs: "rs = filter (\<lambda>u. col u ''id'' = VUuid uid) (db ''user'')"
    unfolding rs_def by (rule filter_cong) (simp_all add: has_key_def primary_key_column_simps)
  have ne: "rs \<noteq> []" using ex by (auto simp: rs filter_empty_conv)
  have keys: "(\<lambda>p. col p ''id'') ` set rs = {VUuid uid}"
    using ne by (intro image_key) (auto simp: rs)
  have I: "children db Item ''user'' rs = items"
    by (auto simp: children_Item keys items_def intro: filter_cong)
  have O: "children db Order ''user'' rs = orders"
    by (auto simp: children_Order keys orders_def intro: filter_cong)
  have D: "children db OrderDetail ''order'' orders = filter gone (db ''orderdetail'')"
    by (simp add: children_OrderDetail gone_def)
  define doomed where "doomed = cascade (length metadata) db User rs"
  have doomed: "doomed = [(''user'', rs), (''item'', items), (''order'', orders),
      (''orderdetail'', filter gone (db ''orderdetail''))]"
    unfolding doomed_def length_metadata cascade_User I O D ..
  have dr: "doomed_rows doomed ''user'' = rs" "doomed_rows doomed ''item'' = items"
    "doomed_rows doomed ''order'' = orders"
    "doomed_rows doomed ''orderdetail'' = filter gone (db ''orderdetail'')"
    by (simp_all add: doomed doomed_rows_def)
  have dr_other: "doomed_rows doomed t = []"
    if "t \<noteq> ''user''" "t \<noteq> ''item''" "t \<noteq> ''order''" "t \<noteq> ''orderdetail''" for t
    using that by (simp add: doomed doomed_rows_def)
  have db': "(\<lambda>t. filter (\<lambda>r. r \<notin> set (doomed_rows doomed t)) (db t)) = db'"
  proof
    fix t
    show "filter (\<lambda>r. r \<notin> set (doomed_rows doomed t)) (db t) = db' t"
      unfolding db'_def
      by (auto simp: dr dr_other rs items_def orders_def filter_not_in_filter simp del: set_filter)
  qed
  have d1: "\<not> dangling db' doomed (Item, (''owner_id'', Ty TUUID,
           Field\<lparr>foreign_key := Some (''user'', ''id''), nullable := Some False,
             ondelete := Some ''CASCADE''\<rparr>))"
    by (auto simp: dangling_def refers_def table_of_simps dr keys db'_def Field_def)
  have d2: "\<not> dangling db' doomed (Order, (''user_id'', Ty TUUID,
           Field\<lparr>foreign_key := Some (''user'', ''id''), nullable := Some False\<rparr>))"
    by (auto simp: dangling_def refers_def table_of_simps dr keys db'_def Field_def)
  have d3: "\<not> dangling db' doomed (OrderDetail, (''order_id'', Ty TUUID,
           Field\<lparr>foreign_key := Some (''order'', ''id''), nullable := Some False\<rparr>))"
    by (auto simp: dangling_def refers_def table_of_simps dr db'_def Field_def gone_def)
  have d4: "dangling db' doomed (OrderDetail, (''item_id'', Ty TUUID,
           Field\<lparr>foreign_key := Some (''item'', ''id''), nullable := Some False\<rparr>)) \<longleftrightarrow>
        (\<exists>d \<in> set (db ''orderdetail''). \<not> gone d \<and> col d ''item_id'' \<noteq> VNone \<and>
            col d ''item_id'' \<in> (\<lambda>i. col i ''id'') ` set items)"
    by (auto simp: dangling_def refers_def table_of_simps dr db'_def Field_def)
  have "delete_row db User (VUuid uid) =
      (case find (dangling db' doomed) foreign_keys of
         Some cf \<Rightarrow> Inl (ForeignKeyViolation (table_of (fst cf)) (fst (snd cf)))
       | None \<Rightarrow> Inr db')"
    using ne unfolding delete_row_def Let_def table_of_simps rs_def [symmetric]
      doomed_def [symmetric] db' by simp
  then show ?thesis
    by (simp add: find_dangling d1 d2 d3 d4 table_of_simps)
qed


lemma delete_row_Order:
  fixes db :: database and oid :: uuid
  defines "db' \<equiv> \<lambda>t.
      if t = ''order'' then filter (\<lambda>r. col r ''id'' \<noteq> VUuid oid) (db ''order'')
      else if t = ''orderdetail'' then filter (\<lambda>d. col d ''order_id'' \<noteq> VUuid oid) (db ''orderdetail'')
      else db t"
  assumes ex: "\<exists>r \<in> set (db ''order''). col r ''id'' = VUuid oid"
  shows "delete_row db Order (VUuid oid) = Inr db'"
proof -
  define rs where "rs = filter (has_key Order (VUuid oid)) (db ''order'')"
  have rs: "rs = filter (\<lambda>r. col r ''id'' = VUuid oid) (db ''order'')"
    unfolding rs_def by (rule filter_cong) (simp_all add: has_key_def primary_key_column_simps)
  have ne: "rs \<noteq> []" using ex by (auto simp: rs filter_empty_conv)
  have keys: "(\<lambda>p. col p ''id'') ` set rs = {VUuid oid}"
    using ne by (intro image_key) (auto simp: rs)
  have D: "children db OrderDetail ''order'' rs =
      filter (\<lambda>d. col d ''order_id'' = VUuid oid) (db ''orderdetail'')"
    by (auto simp: children_OrderDetail keys intro: filter_cong)
  define doomed where "doomed = cascade (length metadata) db Order rs"
  have doomed: "doomed = [(''order'', rs),
      (''orderdetail'', filter (\<lambda>d. col d ''order_id'' = VUuid oid) (db ''orderdetail''))]"
    unfolding doomed_def length_metadata cascade_Order D ..
  have dr: "doomed_rows doomed ''order'' = rs"
    "doomed_rows doomed ''orderdetail'' = filter (\<lambda>d. col d ''order_id'' = VUuid oid) (db ''orderdetail'')"
    "doomed_rows doomed ''user'' = []" "doomed_rows doomed ''item'' = []"
    by (simp_all add: doomed doomed_rows_def)
  have dr_other: "doomed_rows doomed t = []" if "t \<noteq> ''order''" "t \<noteq> ''orderdetail''" for t
    using that by (simp add: doomed doomed_rows_def)
  have db': "(\<lambda>t. filter (\<lambda>r. r \<notin> set (doomed_rows doomed t)) (db t)) = db'"
  proof
    fix t
    show "filter (\<lambda>r. r \<notin> set (doomed_rows doomed t)) (db t) = db' t"
      unfolding db'_def
      by (auto simp: dr dr_other rs filter_not_in_filter simp del: set_filter)
  qed
  have d1: "\<not> dangling db' doomed (Item, (''owner_id'', Ty TUUID,
           Field\<lparr>foreign_key := Some (''user'', ''id''), nullable := Some False,
             ondelete := Some ''CASCADE''\<rparr>))"
    by (auto simp: dangling_def refers_def table_of_simps dr Field_def)
  have d2: "\<not> dangling db' doomed (Order, (''user_id'', Ty TUUID,
           Field\<lparr>foreign_key := Some (''user'', ''id''), nullable := Some False\<rparr>))"
    by (auto simp: dangling_def refers_def table_of_simps dr Field_def)
  have d3: "\<not> dangling db' doomed (OrderDetail, (''order_id'', Ty TUUID,
           Field\<lparr>foreign_key := Some (''order'', ''id''), nullable := Some False\<rparr>))"
    by (auto simp: dangling_def refers_def table_of_simps dr keys db'_def Field_def)
  have d4: "\<not> dangling db' doomed (OrderDetail, (''item_id'', Ty TUUID,
           Field\<lparr>foreign_key := Some (''item'', ''id''), nullable := Some False\<rparr>))"
    by (auto simp: dangling_def refers_def table_of_simps dr Field_def)
  have "delete_row db Order (VUuid oid) =
      (case find (dangling db' doomed) foreign_keys of
         Some cf \<Rightarrow> Inl (ForeignKeyViolation (table_of (fst cf)) (fst (snd cf)))
       | None \<Rightarrow> Inr db')"
    using ne unfolding delete_row_def Let_def table_of_simps rs_def [symmetric]
      doomed_def [symmetric] db' by simp
  then show ?thesis
    by (simp add: find_dangling d1 d2 d3 d4)
qed

section \<open>Facts about validated objects and written rows\<close>

lemma validate_field_Inr_name: "validate_field env p f = Inr (n, v, s) \<Longrightarrow> n = fst f"
  by (cases f) (auto split: option.splits sum.splits factory.splits)

lemma set_rights: "set (rights xs) = {b. Inr b \<in> set xs}"
  by (induction xs rule: rights.induct) auto

lemma lefts_nil_iff: "lefts xs = [] \<longleftrightarrow> (\<forall>x \<in> set xs. \<exists>b. x = Inr b)"
  by (induction xs rule: lefts.induct) auto

lemma model_validate_Inr:
  assumes "model_validate env m p = Inr obj"
  shows "lefts (map (validate_field env p) (model_fields m)) = []"
    and "attrs obj = map (\<lambda>(n, v, s). (n, v)) (rights (map (validate_field env p) (model_fields m)))"
    and "fields_set obj =
           map fst (filter (\<lambda>(n, v, s). s) (rights (map (validate_field env p) (model_fields m))))"
  using assms by (auto simp: model_validate_def Let_def split: if_splits)

lemma validated_col:
  assumes ok: "model_validate env m p = Inr obj"
    and dist: "distinct (map fst (model_fields m))"
    and f: "f \<in> set (model_fields m)"
  shows "\<exists>v s. validate_field env p f = Inr (fst f, v, s) \<and> col (attrs obj) (fst f) = v"
proof -
  from model_validate_Inr(1) [OF ok] f obtain b where b: "validate_field env p f = Inr b"
    unfolding lefts_nil_iff by auto
  obtain n v s where nvs: "b = (n, v, s)" by (cases b)
  have n: "n = fst f" using b nvs validate_field_Inr_name by blast
  have "(n, v, s) \<in> set (rights (map (validate_field env p) (model_fields m)))"
    using f b nvs unfolding set_rights by force
  then have "(n, v) \<in> set (attrs obj)"
    unfolding model_validate_Inr(2) [OF ok] by force
  moreover have "distinct (map fst (attrs obj))"
    using attrs_names [OF ok] dist by simp
  ultimately have "map_of (attrs obj) n = Some v" by simp
  then show ?thesis using b nvs n by (simp add: col_def)
qed

lemma distinct_names:
  "distinct (map fst (model_fields User))" "distinct (map fst (model_fields Item))"
  "distinct (map fst (model_fields Beverage))" "distinct (map fst (model_fields Order))"
  "distinct (map fst (model_fields OrderDetail))"
  "distinct (map fst (model_fields OrderDetailUpdate))"
  "distinct (map fst (model_fields UserRegister))"
  by (simp_all add: table_fields fields_OrderDetailUpdate UserRegister_def sqlmodel_def)


lemma insert_row_Inr:
  assumes "insert_row db m r = Inr db'"
  shows "check_row db m (db (table_of m)) r = None"
    and "db' = db(table_of m := db (table_of m) @ [r])"
  using assms by (auto simp: insert_row_def split: option.splits)

lemma update_row_Inr:
  assumes "update_row db m k r = Inr db'"
  shows "check_row db m (filter (\<lambda>r'. \<not> has_key m k r') (db (table_of m))) r = None"
    and "db' = db(table_of m := map (\<lambda>r'. if has_key m k r' then r else r') (db (table_of m)))"
  using assms by (auto simp: update_row_def split: option.splits if_splits)

lemma delete_row_Inr:
  assumes "delete_row db m k = Inr db'"
  shows "\<exists>P. db' = (\<lambda>t. filter (P t) (db t))"
  using assms by (auto simp: delete_row_def Let_def split: option.splits if_splits)

lemma check_row_None:
  assumes "check_row db m others r = None" and "f \<in> set (model_fields m)"
  shows "\<not> not_null_violation r f" and "\<not> unique_violation others r f"
    and "\<not> foreign_key_violation db r f"
proof -
  from assms(1) have "find (not_null_violation r) (model_fields m) = None"
    and "find (unique_violation others r) (model_fields m) = None"
    and "find (foreign_key_violation db r) (model_fields m) = None"
    by (auto simp: check_row_def split: option.splits)
  with assms(2) show "\<not> not_null_violation r f" and "\<not> unique_violation others r f"
    and "\<not> foreign_key_violation db r f"
    unfolding find_None_iff by blast+
qed

lemma map_of_setattr: "map_of (setattr r k v) = (map_of r)(k \<mapsto> v)"
  by (induction r k v rule: setattr.induct) auto

lemma col_setattr: "col (setattr r k v) n = (if n = k then v else col r n)"
  by (simp add: col_def map_of_setattr)

lemma col_sqlmodel_update:
  "col (sqlmodel_update m r d) n = col r n \<or> (n, col (sqlmodel_update m r d) n) \<in> set d"
proof (induction d arbitrary: r)
  case Nil
  then show ?case by simp
next
  case (Cons kv d)
  obtain k v where kv: "kv = (k, v)" by (cases kv)
  define r' where "r' = (if k \<in> set (map fst (model_fields m)) then setattr r k v else r)"
  have su: "sqlmodel_update m r (kv # d) = sqlmodel_update m r' d"
    by (simp add: kv r'_def)
  from Cons.IH [of r'] consider "col (sqlmodel_update m r' d) n = col r' n"
    | "(n, col (sqlmodel_update m r' d) n) \<in> set d" by blast
  then show ?case
  proof cases
    case 1
    then have eq: "col (sqlmodel_update m r (kv # d)) n = col r' n"
      by (simp only: su)
    have "col r' n = col r n \<or> (n, col r' n) = kv"
      by (simp add: r'_def col_setattr kv)
    then show ?thesis
    proof
      assume "col r' n = col r n"
      with eq show ?thesis by (simp only:) simp
    next
      assume "(n, col r' n) = kv"
      with eq have "(n, col (sqlmodel_update m r (kv # d)) n) \<in> set (kv # d)"
        by (simp only:) simp
      then show ?thesis by blast
    qed
  next
    case 2
    then have "(n, col (sqlmodel_update m r (kv # d)) n) \<in> set (kv # d)"
      by (simp only: su) simp
    then show ?thesis by blast
  qed
qed

lemma sqlmodel_update_frame:
  "n \<notin> fst ` set d \<Longrightarrow> col (sqlmodel_update m r d) n = col r n"
  using col_sqlmodel_update [of m r d n] by force

lemma mapped_class_cases:
  assumes "mapped_class c = Some m"
  shows "m = User \<or> m = Item \<or> m = Beverage \<or> m = Order \<or> m = OrderDetail"
  using assms by (auto simp: mapped_class_def metadata_def split: if_splits)

text \<open>Replacing the row with a given key keeps a column distinct.\<close>

lemma distinct_map_replace:
  assumes "distinct (map g xs)" and "distinct (map f xs)"
    and "f r \<notin> f ` set (filter (\<lambda>x. g x \<noteq> k) xs)"
  shows "distinct (map f (map (\<lambda>x. if g x = k then r else x) xs))"
  using assms
proof (induction xs)
  case Nil
  then show ?case by simp
next
  case (Cons a xs)
  show ?case
  proof (cases "g a = k")
    case True
    have nok: "\<forall>x \<in> set xs. g x \<noteq> k"
      using Cons.prems(1) True by (auto simp: image_iff)
    then have same: "map (\<lambda>x. if g x = k then r else x) xs = xs"
      by (induction xs) auto
    have flt: "filter (\<lambda>x. g x \<noteq> k) xs = xs" using nok by (induction xs) auto
    from Cons.prems(3) True flt have "f r \<notin> f ` set xs" by simp
    with Cons.prems(2) True same show ?thesis by simp
  next
    case False
    from Cons.prems(3) False have fr: "f r \<noteq> f a" "f r \<notin> f ` set (filter (\<lambda>x. g x \<noteq> k) xs)"
      by auto
    from Cons.prems(2) have fa: "f a \<notin> f ` set xs" by simp
    have "f a \<notin> f ` set (map (\<lambda>x. if g x = k then r else x) xs)"
      using fa fr(1) by (auto simp: image_iff)
    moreover have "distinct (map f (map (\<lambda>x. if g x = k then r else x) xs))"
      using Cons.IH Cons.prems(1,2) fr(2) by simp
    ultimately show ?thesis using False by (auto simp: image_iff)
  qed
qed

section \<open>The keys of the user table\<close>

lemma user_constraints:
  assumes "check_row db User others r = None"
  shows "col r ''email'' \<noteq> VNone" and "col r ''email'' \<notin> (\<lambda>u. col u ''email'') ` set others"
    and "col r ''id'' \<noteq> VNone" and "col r ''id'' \<notin> (\<lambda>u. col u ''id'') ` set others"
proof -
  let ?e = "(''email'', Ty TEmailStr, Field\<lparr>unique := True, index := True, max_length := Some 255\<rparr>)"
  let ?i = "(''id'', Ty TUUID, Field\<lparr>default_factory := Some uuid4, primary_key := True\<rparr>)"
  have e: "?e \<in> set (model_fields User)" and i: "?i \<in> set (model_fields User)"
    by (simp_all add: fields_User)
  from check_row_None(1) [OF assms e] show e1: "col r ''email'' \<noteq> VNone"
    by (simp add: not_null_violation_def column_nullable_def Field_def)
  from check_row_None(2) [OF assms e] e1
  show "col r ''email'' \<notin> (\<lambda>u. col u ''email'') ` set others"
    by (simp add: unique_violation_def Field_def)
  from check_row_None(1) [OF assms i] show i1: "col r ''id'' \<noteq> VNone"
    by (simp add: not_null_violation_def column_nullable_def Field_def)
  from check_row_None(2) [OF assms i] i1
  show "col r ''id'' \<notin> (\<lambda>u. col u ''id'') ` set others"
    by (simp add: unique_violation_def Field_def)
qed

lemma other_tables:
  "m = Item \<or> m = Beverage \<or> m = Order \<or> m = OrderDetail \<Longrightarrow> table_of m \<noteq> ''user''"
  by (auto simp: table_of_simps)

lemma execute_user_keys:
  assumes inv: "distinct (map (\<lambda>u. col u ''id'') (db ''user'')) \<and>
    distinct (map (\<lambda>u. col u ''email'') (db ''user''))"
    and ex: "execute db op = Inr db'"
  shows "distinct (map (\<lambda>u. col u ''id'') (db' ''user'')) \<and>
    distinct (map (\<lambda>u. col u ''email'') (db' ''user''))"
proof (cases op)
  case (Insert c r)
  with ex obtain m where m: "mapped_class c = Some m" and ins: "insert_row db m r = Inr db'"
    by (auto split: option.splits)
  show ?thesis
  proof (cases "m = User")
    case True
    from ins have chk: "check_row db User (db ''user'') r = None"
      and db': "db' = db(''user'' := db ''user'' @ [r])"
      using insert_row_Inr [of db User r db'] by (simp_all add: True table_of_simps)
    from user_constraints [OF chk] inv show ?thesis
      by (simp add: db')
  next
    case False
    with mapped_class_cases [OF m] have "table_of m \<noteq> ''user''" using other_tables by blast
    with insert_row_Inr(2) [OF ins] inv show ?thesis by simp
  qed
next
  case (Update c k r)
  with ex obtain m where m: "mapped_class c = Some m" and upd: "update_row db m k r = Inr db'"
    by (auto split: option.splits)
  show ?thesis
  proof (cases "m = User")
    case True
    have hk: "has_key User k = (\<lambda>x. col x ''id'' = k)"
      by (rule ext) (simp add: has_key_def primary_key_column_simps)
    from upd have chk: "check_row db User (filter (\<lambda>x. col x ''id'' \<noteq> k) (db ''user'')) r = None"
      and db': "db' = db(''user'' := map (\<lambda>x. if col x ''id'' = k then r else x) (db ''user''))"
      using update_row_Inr [of db User k r db'] by (simp_all add: True table_of_simps hk)
    from user_constraints [OF chk] inv show ?thesis
      by (simp add: db' distinct_map_replace del: map_map)
  next
    case False
    with mapped_class_cases [OF m] have "table_of m \<noteq> ''user''" using other_tables by blast
    with update_row_Inr(2) [OF upd] inv show ?thesis by simp
  qed
next
  case (Delete c k)
  with ex obtain m where "delete_row db m k = Inr db'"
    by (auto split: option.splits)
  from delete_row_Inr [OF this] obtain P where "db' = (\<lambda>t. filter (P t) (db t))" by blast
  with inv show ?thesis by (simp add: distinct_map_filter)
qed

lemma run_user_keys:
  "distinct (map (\<lambda>u. col u ''id'') (db ''user'')) \<and>
    distinct (map (\<lambda>u. col u ''email'') (db ''user'')) \<Longrightarrow>
   distinct (map (\<lambda>u. col u ''id'') (run db ops ''user'')) \<and>
    distinct (map (\<lambda>u. col u ''email'') (run db ops ''user''))"
proof (induction ops arbitrary: db)
  case Nil
  then show ?case by simp
next
  case (Cons op ops)
  show ?case
  proof (cases "execute db op")
    case (Inl e)
    with Cons show ?thesis by simp
  next
    case (Inr db')
    with Cons.prems have "distinct (map (\<lambda>u. col u ''id'') (db' ''user'')) \<and>
    distinct (map (\<lambda>u. col u ''email'') (db' ''user''))"
      by (rule execute_user_keys)
    with Cons.IH Inr show ?thesis by simp
  qed
qed

lemma first_insert:
  assumes "\<forall>c \<in> set [''email'', ''is_active'', ''is_superuser'', ''id'', ''hashed_password''].
             col r c \<noteq> VNone"
    and "col r ''email'' \<notin> (\<lambda>u. col u ''email'') ` set (db ''user'')"
    and "col r ''id'' \<notin> (\<lambda>u. col u ''id'') ` set (db ''user'')"
  shows "insert_row db User r = Inr (db(''user'' := db ''user'' @ [r]))"
  using assms
  by (simp add: insert_row_def check_row_def fields_User table_of_simps not_null_violation_def
        unique_violation_def foreign_key_violation_def column_nullable_def Field_def)

lemma second_insert:
  assumes "insert_row db User r1 = Inr db1" and "col r2 ''email'' = col r1 ''email''"
  shows "insert_row db1 User r2 = Inl (UniqueViolation ''user'' ''email'') \<or>
         (\<exists>c. insert_row db1 User r2 = Inl (NotNullViolation ''user'' c))"
proof -
  from assms(1) have chk: "check_row db User (db ''user'') r1 = None"
    and db1: "db1 = db(''user'' := db ''user'' @ [r1])"
    using insert_row_Inr [of db User r1 db1] by (simp_all add: table_of_simps)
  from user_constraints(1) [OF chk] assms(2) have "col r2 ''email'' \<noteq> VNone" by simp
  with assms(2) show ?thesis
    by (simp add: insert_row_def check_row_def fields_User table_of_simps db1
        not_null_violation_def unique_violation_def column_nullable_def Field_def)
qed

section \<open>Facts about requests\<close>


lemma create_Inr:
  assumes "create env db shape tbl extra p = Inr db'"
  shows "\<exists>obj new. model_validate env shape p = Inr obj \<and>
           model_validate env tbl (map_of (extra @ attrs obj)) = Inr new \<and>
           insert_row db tbl (attrs new) = Inr db'"
  using assms by (auto simp: create_def model_validate_from_def split: sum.splits)





lemma names_UserRegister:
  "map fst (model_fields UserRegister) = [''email'', ''password'', ''full_name'']"
  by (simp add: UserRegister_def sqlmodel_def)

lemma register_flags:
  assumes "register_user env hash db p = Inr db'"
  shows "\<exists>r. db' ''user'' = db ''user'' @ [r] \<and> col r ''is_superuser'' = VBool False \<and>
           col r ''is_active'' = VBool True"
proof -
  define extra where "extra = (case p ''password'' of
      Some (VStr pw) \<Rightarrow> [(''hashed_password'', VStr (hash pw))] | _ \<Rightarrow> [])"
  have ex: "fst ` set extra \<subseteq> {''hashed_password''}"
    by (auto simp: extra_def split: option.splits pyval.splits)
  from assms have "create env db UserRegister User extra p = Inr db'"
    by (simp add: register_user_def extra_def)
  from create_Inr [OF this] obtain obj new where
    obj: "model_validate env UserRegister p = Inr obj"
    and new: "model_validate env User (map_of (extra @ attrs obj)) = Inr new"
    and ins: "insert_row db User (attrs new) = Inr db'"
    by auto
  define q where "q = map_of (extra @ attrs obj)"
  have names: "fst ` set (attrs obj) = {''email'', ''password'', ''full_name''}"
    using attrs_names [OF obj] names_UserRegister
    by (metis list.set_map list.simps(15) empty_set insert_commute)
  have unset: "q ''is_superuser'' = None" "q ''is_active'' = None"
    using ex names by (auto simp: q_def map_of_eq_None_iff)
  let ?s = "(''is_superuser'', Ty TBool, Field\<lparr>default_value := Some (VBool False)\<rparr>)"
  let ?a = "(''is_active'', Ty TBool, Field\<lparr>default_value := Some (VBool True)\<rparr>)"
  from validated_col [OF new [folded q_def] distinct_names(1), of ?s] unset(1)
  have s: "col (attrs new) ''is_superuser'' = VBool False"
    by (auto simp: fields_User Field_def)
  from validated_col [OF new [folded q_def] distinct_names(1), of ?a] unset(2)
  have a: "col (attrs new) ''is_active'' = VBool True"
    by (auto simp: fields_User Field_def)
  from insert_row_Inr(2) [OF ins] s a show ?thesis
    by (simp add: table_of_simps)
qed

text \<open>
  An accepted update leaves a field that the payload omits as it is stored.
\<close>

lemma validate_field_set: "validate_field env p f = Inr (n, v, True) \<Longrightarrow> p n \<noteq> None"
  by (cases f) (auto split: option.splits sum.splits factory.splits)

lemma fields_set_in_payload:
  assumes "model_validate env m p = Inr obj" and "n \<in> set (fields_set obj)"
  shows "p n \<noteq> None"
proof -
  from assms obtain v where
    "(n, v, True) \<in> set (rights (map (validate_field env p) (model_fields m)))"
    unfolding model_validate_Inr(3) [OF assms(1)] by auto
  then obtain f where "validate_field env p f = Inr (n, v, True)"
    unfolding set_rights by auto
  then show ?thesis by (rule validate_field_set)
qed

lemma update_leaves_omitted_fields:
  assumes "update env db shape tbl k p = Inr db'" and "p n = None"
  shows "\<exists>r r'. r \<in> set (db (table_of tbl)) \<and> has_key tbl k r \<and>
           db' = db(table_of tbl :=
                   map (\<lambda>x. if has_key tbl k x then r' else x) (db (table_of tbl))) \<and>
           col r' n = col r n"
proof -
  from assms(1) obtain obj r rs where obj: "model_validate env shape p = Inr obj"
    and f: "filter (has_key tbl k) (db (table_of tbl)) = r # rs"
    and u: "update_row db tbl k (sqlmodel_update tbl r (model_dump_exclude_unset obj)) = Inr db'"
    by (auto simp: update_def split: sum.splits list.splits)
  from f have "r \<in> set (filter (has_key tbl k) (db (table_of tbl)))" by simp
  then have r: "r \<in> set (db (table_of tbl))" "has_key tbl k r" by simp_all
  have "n \<notin> set (fields_set obj)"
    using fields_set_in_payload [OF obj] assms(2) by blast
  then have "n \<notin> fst ` set (model_dump_exclude_unset obj)"
    by (auto simp: model_dump_exclude_unset_def)
  then have "col (sqlmodel_update tbl r (model_dump_exclude_unset obj)) n = col r n"
    by (rule sqlmodel_update_frame)
  with r update_row_Inr(2) [OF u] show ?thesis by blast
qed

section \<open>Evaluating the examples\<close>




lemma mapped_class_simps:
  "mapped_class ''User'' = Some User" "mapped_class ''Item'' = Some Item"
  "mapped_class ''Order'' = Some Order" "mapped_class ''OrderDetail'' = Some OrderDetail"
  by (simp_all add: mapped_class_def metadata_def classname_simps)

lemmas row_defs = user_ann_def user_bob_def item_mug_def order_bob_def line_mug_def

lemmas ins_defs = mapped_class_simps insert_row_def check_row_def
        table_fields table_of_simps not_null_violation_def unique_violation_def
        foreign_key_violation_def column_nullable_def Field_def col_def row_defs
        empty_database_def

lemma shop_tables:
  "shop ''user'' = [user_ann, user_bob]" "shop ''item'' = [item_mug]"
  "shop ''order'' = [order_bob]" "shop ''orderdetail'' = [line_mug]"
  by (simp_all add: shop_def shop_inserts_def ins_defs Collect_disj_eq)

section \<open>Claims about validation\<close>

text \<open>
  C5. The table class \<open>Item\<close> declares \<open>title\<close> again with \<^verbatim>\<open>max_length=255\<close> and no
  \<^verbatim>\<open>min_length\<close>, where \<open>ItemBase\<close> has \<^verbatim>\<open>min_length=1\<close>. So a payload whose title is the
  empty string (and whose other fields are valid) is accepted by \<open>Item\<close>, which keeps the
  empty title, and the same payload is rejected by \<open>ItemCreate\<close> with
  \<open>string_too_short\<close> on \<open>title\<close>.
\<close>

theorem item_table_accepts_empty_title:
  assumes "p ''title'' = Some (VStr [])" and "p ''owner_id'' = Some (VUuid u)"
    and "p ''description'' = None" and "p ''id'' = None"
  shows "map (\<lambda>f. (min_length (snd (snd f)), max_length (snd (snd f))))
           (filter (\<lambda>f. fst f = ''title'') (model_fields Item)) = [(None, Some 255)] \<and>
         map (\<lambda>f. (min_length (snd (snd f)), max_length (snd (snd f))))
           (filter (\<lambda>f. fst f = ''title'') (model_fields ItemBase)) = [(Some 1, Some 255)] \<and>
         model_validate env Item p =
           Inr \<lparr>attrs = [(''title'', VStr []), (''description'', VNone),
                          (''id'', VUuid (new_uuid env)), (''owner_id'', VUuid u)],
                 fields_set = [''title'', ''owner_id'']\<rparr> \<and>
         model_validate env ItemCreate p = Inl [(''title'', string_too_short)]"
  using assms
  by (simp add: model_validate_def fields_Item fields_ItemCreate ItemBase_def sqlmodel_def
        check_defs)

theorem item_table_accepts_empty_title_witness:
  "model_validate plain_env Item [''title'' \<mapsto> VStr [], ''owner_id'' \<mapsto> VUuid 5] =
     Inr \<lparr>attrs = [(''title'', VStr []), (''description'', VNone),
                    (''id'', VUuid 7), (''owner_id'', VUuid 5)],
           fields_set = [''title'', ''owner_id'']\<rparr> \<and>
   model_validate plain_env ItemCreate [''title'' \<mapsto> VStr [], ''owner_id'' \<mapsto> VUuid 5] =
     Inl [(''title'', string_too_short)]"
  using item_table_accepts_empty_title
          [of "[''title'' \<mapsto> VStr [], ''owner_id'' \<mapsto> VUuid 5]" 5 plain_env]
  by (simp add: plain_env_def)

text \<open>
  C6, as the class has it. \<open>sub\<close> is declared \<^verbatim>\<open>str | None = None\<close>: a payload without
  \<open>sub\<close>, or with \<open>sub\<close> null, is accepted and the subject is \<^verbatim>\<open>None\<close>; a string is
  accepted as it is; any other value is rejected with \<open>string_type\<close>. So a token payload
  carries a subject string or no subject.
\<close>

theorem token_payload_sub_optional:
  "model_validate env TokenPayload p =
     (case p ''sub'' of
        None \<Rightarrow> Inr \<lparr>attrs = [(''sub'', VNone)], fields_set = []\<rparr>
      | Some VNone \<Rightarrow> Inr \<lparr>attrs = [(''sub'', VNone)], fields_set = [''sub'']\<rparr>
      | Some (VStr s) \<Rightarrow> Inr \<lparr>attrs = [(''sub'', VStr s)], fields_set = [''sub'']\<rparr>
      | Some v \<Rightarrow> Inl [(''sub'', string_type)])"
  by (simp add: model_validate_def fields_TokenPayload check_defs
        split: option.splits pyval.splits)

text \<open>
  C6 as stated fails: the empty payload, which has no \<open>sub\<close>, is a valid
  \<open>TokenPayload\<close>.
\<close>

theorem token_payload_without_sub_accepted:
  "model_validate plain_env TokenPayload Map.empty =
     Inr \<lparr>attrs = [(''sub'', VNone)], fields_set = []\<rparr>"
  by (simp add: model_validate_def fields_TokenPayload check_defs)

text \<open>
  C7. A payload whose \<open>title\<close> is a string shorter than 1 character is rejected by
  \<open>ItemCreate\<close>, with \<open>string_too_short\<close> on \<open>title\<close>, whatever its other fields; with a
  title of 1 to 255 characters no error is reported on \<open>title\<close>. The same holds for
  \<open>name\<close> and \<open>BeverageCreate\<close>.
\<close>

theorem create_rejects_short_title_or_name:
  assumes "p ''title'' = Some (VStr s)" and "q ''name'' = Some (VStr s)"
  shows "(length s < 1 \<longrightarrow>
            (\<exists>errs. model_validate env ItemCreate p = Inl errs \<and>
                     (''title'', string_too_short) \<in> set errs) \<and>
            (\<exists>errs. model_validate env BeverageCreate q = Inl errs \<and>
                     (''name'', string_too_short) \<in> set errs)) \<and>
         (1 \<le> length s \<and> length s \<le> 255 \<longrightarrow>
            (\<forall>e. (''title'', e) \<notin> set (errors_of (model_validate env ItemCreate p))) \<and>
            (\<forall>e. (''name'', e) \<notin> set (errors_of (model_validate env BeverageCreate q))))"
  using assms short_title_rejected [of p s env] title_in_range_accepted [of p s _ env]
    short_name_rejected [of q s env] name_in_range_accepted [of q s _ env]
  by blast

theorem create_rejects_short_title_or_name_witness:
  "(\<exists>errs. model_validate plain_env ItemCreate [''title'' \<mapsto> VStr []] = Inl errs \<and>
            (''title'', string_too_short) \<in> set errs) \<and>
   (\<exists>errs. model_validate plain_env BeverageCreate [''name'' \<mapsto> VStr [], ''inventory'' \<mapsto> VInt 1]
              = Inl errs \<and> (''name'', string_too_short) \<in> set errs) \<and>
   (\<forall>e. (''title'', e) \<notin> set (errors_of (model_validate plain_env ItemCreate [''title'' \<mapsto> VStr ''tea'']))) \<and>
   (\<forall>e. (''name'', e) \<notin> set (errors_of (model_validate plain_env BeverageCreate
              [''name'' \<mapsto> VStr ''tea'', ''inventory'' \<mapsto> VInt 1])))"
  using create_rejects_short_title_or_name
          [of "[''title'' \<mapsto> VStr []]" "[]" "[''name'' \<mapsto> VStr [], ''inventory'' \<mapsto> VInt 1]" plain_env]
        create_rejects_short_title_or_name
          [of "[''title'' \<mapsto> VStr ''tea'']" "''tea''"
              "[''name'' \<mapsto> VStr ''tea'', ''inventory'' \<mapsto> VInt 1]" plain_env]
  by simp

text \<open>
  C2, as the classes have it. No price field has a lower bound: \<open>price\<close> and
  \<open>total_price\<close> are declared with \<^verbatim>\<open>max_digits\<close> and \<^verbatim>\<open>decimal_places\<close> only, and the
  digit check does not read the sign. For every Create and Update shape with a price
  field, a payload with the price \<open>-x\<close> gets the errors of the same payload with the price
  \<open>x\<close>: a negative price is accepted whenever its absolute value is.
\<close>

theorem price_validation_ignores_sign:
  "errors_of (model_validate env BeverageCreate (p(''price'' \<mapsto> VDecimal (Dec True ds e)))) =
   errors_of (model_validate env BeverageCreate (p(''price'' \<mapsto> VDecimal (Dec False ds e)))) \<and>
   errors_of (model_validate env BeverageUpdate (p(''price'' \<mapsto> VDecimal (Dec True ds e)))) =
   errors_of (model_validate env BeverageUpdate (p(''price'' \<mapsto> VDecimal (Dec False ds e)))) \<and>
   errors_of (model_validate env OrderCreate (p(''total_price'' \<mapsto> VDecimal (Dec True ds e)))) =
   errors_of (model_validate env OrderCreate (p(''total_price'' \<mapsto> VDecimal (Dec False ds e)))) \<and>
   errors_of (model_validate env OrderUpdate (p(''total_price'' \<mapsto> VDecimal (Dec True ds e)))) =
   errors_of (model_validate env OrderUpdate (p(''total_price'' \<mapsto> VDecimal (Dec False ds e)))) \<and>
   errors_of (model_validate env OrderDetailCreate (p(''price'' \<mapsto> VDecimal (Dec True ds e)))) =
   errors_of (model_validate env OrderDetailCreate (p(''price'' \<mapsto> VDecimal (Dec False ds e)))) \<and>
   errors_of (model_validate env OrderDetailUpdate (p(''price'' \<mapsto> VDecimal (Dec True ds e)))) =
   errors_of (model_validate env OrderDetailUpdate (p(''price'' \<mapsto> VDecimal (Dec False ds e))))"
  by (intro conjI errors_sign)

text \<open>
  C2 as stated fails: \<open>Dec True [1, 5, 0] (- 2)\<close> is \<^verbatim>\<open>Decimal("-1.50")\<close>, and the
  \<open>BeverageCreate\<close> payload that carries it as its price is accepted, the negative price
  kept; so is the \<open>BeverageUpdate\<close> payload.
\<close>

theorem negative_price_accepted:
  "model_validate plain_env BeverageCreate
     [''name'' \<mapsto> VStr ''cola'', ''price'' \<mapsto> VDecimal (Dec True [1, 5, 0] (- 2)),
      ''inventory'' \<mapsto> VInt 3] =
   Inr \<lparr>attrs = [(''name'', VStr ''cola''), (''description'', VNone),
                  (''price'', VDecimal (Dec True [1, 5, 0] (- 2))), (''inventory'', VInt 3)],
         fields_set = [''name'', ''price'', ''inventory'']\<rparr> \<and>
   model_validate plain_env BeverageUpdate
     [''price'' \<mapsto> VDecimal (Dec True [1, 5, 0] (- 2))] =
   Inr \<lparr>attrs = [(''name'', VNone), (''description'', VNone),
                  (''price'', VDecimal (Dec True [1, 5, 0] (- 2))), (''inventory'', VNone)],
         fields_set = [''price'']\<rparr>"
  by (simp add: model_validate_def fields_BeverageCreate fields_BeverageUpdate check_defs)

text \<open>
  C3. A \<open>User\<close> row is shown through \<open>UserPublic\<close>, whose fields are those of \<open>UserBase\<close>
  and \<open>id\<close>. Two rows that differ only in \<open>hashed_password\<close> serialize alike (also when
  the serialization fails), and a serialization has exactly the keys \<open>email\<close>,
  \<open>is_active\<close>, \<open>is_superuser\<close>, \<open>full_name\<close>, \<open>id\<close>.
\<close>

theorem user_public_hides_hashed_password:
  assumes "\<forall>n. n \<noteq> ''hashed_password'' \<longrightarrow> map_of u n = map_of u' n"
  shows "serialize env UserPublic u = serialize env UserPublic u' \<and>
         (\<forall>d. serialize env UserPublic u = Inr d \<longrightarrow>
            map fst d = [''email'', ''is_active'', ''is_superuser'', ''full_name'', ''id''] \<and>
            ''hashed_password'' \<notin> set (map fst d))"
proof -
  have "serialize env UserPublic u = serialize env UserPublic u'"
    using assms by (intro serialize_cong) (auto simp: names_UserPublic)
  moreover have "map fst d = [''email'', ''is_active'', ''is_superuser'', ''full_name'', ''id'']"
    if "serialize env UserPublic u = Inr d" for d
    using serialize_names [OF that] by (simp add: names_UserPublic)
  ultimately show ?thesis by auto
qed

theorem user_public_hides_hashed_password_witness:
  "serialize plain_env UserPublic
     [(''email'', VStr ''a@b.c''), (''is_active'', VBool True), (''is_superuser'', VBool False),
      (''full_name'', VNone), (''id'', VUuid 1), (''hashed_password'', VStr ''x1'')] =
   Inr [(''email'', VStr ''a@b.c''), (''is_active'', VBool True), (''is_superuser'', VBool False),
        (''full_name'', VNone), (''id'', VUuid 1)] \<and>
   serialize plain_env UserPublic
     [(''email'', VStr ''a@b.c''), (''is_active'', VBool True), (''is_superuser'', VBool False),
      (''full_name'', VNone), (''id'', VUuid 1), (''hashed_password'', VStr ''y2'')] =
   Inr [(''email'', VStr ''a@b.c''), (''is_active'', VBool True), (''is_superuser'', VBool False),
        (''full_name'', VNone), (''id'', VUuid 1)]"
proof -
  let ?u = "[(''email'', VStr ''a@b.c''), (''is_active'', VBool True),
      (''is_superuser'', VBool False), (''full_name'', VNone), (''id'', VUuid 1),
      (''hashed_password'', VStr ''x1'')]"
  let ?u' = "[(''email'', VStr ''a@b.c''), (''is_active'', VBool True),
      (''is_superuser'', VBool False), (''full_name'', VNone), (''id'', VUuid 1),
      (''hashed_password'', VStr ''y2'')]"
  have same: "\<forall>n. n \<noteq> ''hashed_password'' \<longrightarrow> map_of ?u n = map_of ?u' n"
    by simp
  have val: "serialize plain_env UserPublic ?u =
      Inr [(''email'', VStr ''a@b.c''), (''is_active'', VBool True),
           (''is_superuser'', VBool False), (''full_name'', VNone), (''id'', VUuid 1)]"
    by (simp add: serialize_def model_validate_from_def model_validate_def UserPublic_def
          UserBase_def extends_def sqlmodel_def check_defs plain_env_def)
  from user_public_hides_hashed_password [OF same, of plain_env] val show ?thesis
    by simp
qed

text \<open>
  C1, where the classes break it. \<open>OrderUpdate\<close> declares only \<open>status\<close> again, so
  \<open>user_id\<close> stays as \<open>OrderBase\<close> has it, with no default: a payload that leaves it out
  is rejected with \<open>missing\<close> on \<open>user_id\<close>. \<open>OrderDetailUpdate\<close> keeps \<open>order_id\<close> and
  \<open>item_id\<close> required in the same way. (\<open>UserUpdate\<close>, \<open>ItemUpdate\<close> and \<open>BeverageUpdate\<close>
  accept the empty payload: \<open>update_shapes_accept_empty_payload\<close>; and an update that is
  accepted leaves every omitted field as it is stored: \<open>update_leaves_omitted_fields\<close>.)
\<close>

theorem order_update_requires_user_id:
  "(p ''user_id'' = None \<longrightarrow>
      (\<exists>errs. model_validate env OrderUpdate p = Inl errs \<and> (''user_id'', missing) \<in> set errs)) \<and>
   (q ''order_id'' = None \<longrightarrow>
      (\<exists>errs. model_validate env OrderDetailUpdate q = Inl errs \<and>
               (''order_id'', missing) \<in> set errs)) \<and>
   (q ''item_id'' = None \<longrightarrow>
      (\<exists>errs. model_validate env OrderDetailUpdate q = Inl errs \<and>
               (''item_id'', missing) \<in> set errs))"
  by (intro conjI impI rejected_by_error)
     (simp_all add: error_iff fields_OrderUpdate fields_OrderDetailUpdate check_defs)

theorem order_update_requires_user_id_witness:
  "model_validate plain_env OrderUpdate [''status'' \<mapsto> VStr ''paid''] =
     Inl [(''user_id'', missing)] \<and>
   model_validate plain_env OrderDetailUpdate [''quantity'' \<mapsto> VInt 2] =
     Inl [(''order_id'', missing), (''item_id'', missing)]"
proof -
  have "model_validate plain_env OrderUpdate [''status'' \<mapsto> VStr ''paid''] =
          Inl [(''user_id'', missing)]"
    and "model_validate plain_env OrderDetailUpdate [''quantity'' \<mapsto> VInt 2] =
          Inl [(''order_id'', missing), (''item_id'', missing)]"
    by (simp_all add: model_validate_def fields_OrderUpdate fields_OrderDetailUpdate check_defs)
  with order_update_requires_user_id
         [of "[''status'' \<mapsto> VStr ''paid'']" plain_env "[''quantity'' \<mapsto> VInt 2]"]
  show ?thesis by simp
qed

section \<open>Claims about the store and the requests\<close>

text \<open>
  C4, where the tables break it. The cascade of a user is set up for the user's items and
  orders (\<^verbatim>\<open>cascade_delete=True\<close> on \<open>User.items\<close> and \<open>User.orders\<close>,
  \<^verbatim>\<open>ondelete="CASCADE"\<close> on \<open>Item.owner_id\<close>) and for the lines of those orders
  (\<^verbatim>\<open>cascade_delete=True\<close> on \<open>Order.order_details\<close>); \<open>OrderDetail.item_id\<close> alone is a
  required foreign key with no cascade. In \<open>shop\<close>, reached by five inserts of complete
  rows, Ann owns the item 10 and Bob's order has a line for it. The cascade of Ann takes
  her row and her item and no order line, and the line of Bob's order refers to that
  item: the delete of Ann is rejected with a violation of \<open>orderdetail.item_id\<close>, and the
  store stays as it was, Ann and her item in it. (The line is outside the cascade, so it
  refers to a deleted item whenever the store looks; \<open>delete_row_User\<close> gives the outcome
  of the delete of a user in any store.)
\<close>

theorem delete_user_held_by_order_detail:
  "shop ''user'' = [user_ann, user_bob] \<and> shop ''item'' = [item_mug] \<and>
   shop ''order'' = [order_bob] \<and> shop ''orderdetail'' = [line_mug] \<and>
   cascade (length metadata) shop User [user_ann] =
     [(''user'', [user_ann]), (''item'', [item_mug]), (''order'', []), (''orderdetail'', [])] \<and>
   col line_mug ''item_id'' = col item_mug ''id'' \<and>
   delete_row shop User (VUuid 1) = Inl (ForeignKeyViolation ''orderdetail'' ''item_id'') \<and>
   run shop [Delete ''User'' (VUuid 1)] = shop"
proof -
  have c: "cascade (length metadata) shop User [user_ann] =
     [(''user'', [user_ann]), (''item'', [item_mug]), (''order'', []), (''orderdetail'', [])]"
    unfolding length_metadata cascade_User children_Item children_Order children_OrderDetail
    by (simp add: shop_tables col_def row_defs)
  have k: "col line_mug ''item_id'' = col item_mug ''id''"
    by (simp add: col_def row_defs)
  have "\<exists>u \<in> set (shop ''user''). col u ''id'' = VUuid 1"
    by (simp add: shop_tables col_def row_defs)
  with delete_row_User [of shop 1]
  have d: "delete_row shop User (VUuid 1) = Inl (ForeignKeyViolation ''orderdetail'' ''item_id'')"
    by (simp add: shop_tables col_def row_defs)
  then have r: "run shop [Delete ''User'' (VUuid 1)] = shop"
    by (simp add: mapped_class_simps)
  from shop_tables c k d r show ?thesis by blast
qed



text \<open>
  C9. \<open>email\<close> is declared \<^verbatim>\<open>unique=True\<close>. The first user row with an email is
  inserted when its required columns are set and its email and id are new; after that an
  insert of any row with the same email is rejected, as a uniqueness conflict on \<open>email\<close>
  when the row is otherwise complete. After every sequence of inserts, updates and
  deletes, starting from the empty store, no two user rows share an email.
\<close>

theorem duplicate_email_rejected:
  "((\<forall>c \<in> set [''email'', ''is_active'', ''is_superuser'', ''id'', ''hashed_password''].
        col r1 c \<noteq> VNone) \<and>
    col r1 ''email'' \<notin> (\<lambda>u. col u ''email'') ` set (db ''user'') \<and>
    col r1 ''id'' \<notin> (\<lambda>u. col u ''id'') ` set (db ''user'') \<longrightarrow>
      insert_row db User r1 = Inr (db(''user'' := db ''user'' @ [r1]))) \<and>
   (insert_row db User r1 = Inr db1 \<and> col r2 ''email'' = col r1 ''email'' \<longrightarrow>
      (\<exists>e. insert_row db1 User r2 = Inl e) \<and>
      ((\<forall>c \<in> set [''email'', ''is_active'', ''is_superuser'', ''id'', ''hashed_password''].
          col r2 c \<noteq> VNone) \<longrightarrow>
       insert_row db1 User r2 = Inl (UniqueViolation ''user'' ''email''))) \<and>
   distinct (map (\<lambda>u. col u ''email'') (run empty_database ops ''user''))"
proof -
  have inv: "distinct (map (\<lambda>u. col u ''email'') (run empty_database ops ''user''))"
    using run_user_keys [of empty_database ops] by (simp add: empty_database_def)
  have second: "(\<exists>e. insert_row db1 User r2 = Inl e) \<and>
      ((\<forall>c \<in> set [''email'', ''is_active'', ''is_superuser'', ''id'', ''hashed_password''].
          col r2 c \<noteq> VNone) \<longrightarrow>
       insert_row db1 User r2 = Inl (UniqueViolation ''user'' ''email''))"
    if a: "insert_row db User r1 = Inr db1" and b: "col r2 ''email'' = col r1 ''email''"
  proof -
    from second_insert [OF a b] consider
      "insert_row db1 User r2 = Inl (UniqueViolation ''user'' ''email'')"
      | c where "insert_row db1 User r2 = Inl (NotNullViolation ''user'' c)" by blast
    then show ?thesis
    proof cases
      case 1
      then show ?thesis by simp
    next
      case 2
      then have "\<not> (\<forall>c \<in> set [''email'', ''is_active'', ''is_superuser'', ''id'',
          ''hashed_password'']. col r2 c \<noteq> VNone)"
        by (auto simp: insert_row_def check_row_def fields_User table_of_simps
            not_null_violation_def column_nullable_def Field_def split: option.splits if_splits)
      with 2 show ?thesis by simp
    qed
  qed
  show ?thesis
    using inv second first_insert [of r1 db] by blast
qed

theorem duplicate_email_rejected_witness:
  "insert_row empty_database User user_ann = Inr (empty_database(''user'' := [user_ann])) \<and>
   insert_row (empty_database(''user'' := [user_ann])) User user_ann_again =
     Inl (UniqueViolation ''user'' ''email'') \<and>
   run empty_database [Insert ''User'' user_ann, Insert ''User'' user_ann_again] ''user'' =
     [user_ann] \<and>
   distinct (map (\<lambda>u. col u ''email'')
     (run empty_database [Insert ''User'' user_ann, Insert ''User'' user_ann_again] ''user''))"
proof -
  let ?db1 = "empty_database(''user'' := [user_ann])"
  let ?ops = "[Insert ''User'' user_ann, Insert ''User'' user_ann_again]"
  have nn1: "\<forall>c \<in> set [''email'', ''is_active'', ''is_superuser'', ''id'', ''hashed_password''].
      col user_ann c \<noteq> VNone"
    by (simp add: user_ann_def col_def)
  have nn2: "\<forall>c \<in> set [''email'', ''is_active'', ''is_superuser'', ''id'', ''hashed_password''].
      col user_ann_again c \<noteq> VNone"
    by (simp add: user_ann_again_def col_def)
  have e: "col user_ann_again ''email'' = col user_ann ''email''"
    by (simp add: user_ann_def user_ann_again_def col_def)
  have u: "empty_database ''user'' = []"
    by (simp add: empty_database_def)
  note T = duplicate_email_rejected [of user_ann empty_database ?db1 user_ann_again ?ops]
  from T nn1 have 1: "insert_row empty_database User user_ann = Inr ?db1"
    unfolding u by simp
  from T 1 e nn2 have 2: "insert_row ?db1 User user_ann_again =
      Inl (UniqueViolation ''user'' ''email'')"
    by blast
  have m: "mapped_class ''User'' = Some User"
    by (simp add: mapped_class_def metadata_def classname_simps)
  have 3: "run empty_database ?ops ''user'' = [user_ann]"
    by (simp add: m 1 2)
  from T have 4: "distinct (map (\<lambda>u. col u ''email'') (run empty_database ?ops ''user''))"
    by blast
  from 1 2 3 4 show ?thesis by blast
qed

text \<open>
  C10. \<open>UserRegister\<close> has the fields \<open>email\<close>, \<open>password\<close> and \<open>full_name\<close> and no
  other. Whatever the registration payload holds, the user row that a registration
  creates has \<open>is_superuser\<close> false and \<open>is_active\<close> true, the defaults of \<open>UserBase\<close>: so
  the rows of any two registrations agree on both flags.
\<close>

theorem registration_cannot_set_flags:
  "map fst (model_fields UserRegister) = [''email'', ''password'', ''full_name''] \<and>
   (\<forall>db'. register_user env hash db p = Inr db' \<longrightarrow>
      (\<exists>r. db' ''user'' = db ''user'' @ [r] \<and> col r ''is_superuser'' = VBool False \<and>
           col r ''is_active'' = VBool True))"
  using register_flags [of env hash db p] names_UserRegister by blast

theorem registration_cannot_set_flags_witness:
  "\<exists>db'. register_user plain_env (\<lambda>pw. ''#'' @ pw) empty_database
            [''email'' \<mapsto> VStr ''eve@x.org'', ''password'' \<mapsto> VStr ''12345678'',
             ''is_superuser'' \<mapsto> VBool True, ''is_active'' \<mapsto> VBool False] = Inr db' \<and>
          (\<exists>r. db' ''user'' = [r] \<and> col r ''is_superuser'' = VBool False \<and>
               col r ''is_active'' = VBool True)"
proof -
  have "\<exists>db'. register_user plain_env (\<lambda>pw. ''#'' @ pw) empty_database
     [''email'' \<mapsto> VStr ''eve@x.org'', ''password'' \<mapsto> VStr ''12345678'',
      ''is_superuser'' \<mapsto> VBool True, ''is_active'' \<mapsto> VBool False] = Inr db'"
    by (simp add: register_user_def create_def model_validate_from_def model_validate_def
        UserRegister_def sqlmodel_def fields_User check_defs plain_env_def insert_row_def
        check_row_def not_null_violation_def unique_violation_def foreign_key_violation_def
        column_nullable_def table_of_simps empty_database_def col_def)
  then obtain db' where r: "register_user plain_env (\<lambda>pw. ''#'' @ pw) empty_database
     [''email'' \<mapsto> VStr ''eve@x.org'', ''password'' \<mapsto> VStr ''12345678'',
      ''is_superuser'' \<mapsto> VBool True, ''is_active'' \<mapsto> VBool False] = Inr db'" by blast
  with registration_cannot_set_flags
         [of plain_env "\<lambda>pw. ''#'' @ pw" empty_database
            "[''email'' \<mapsto> VStr ''eve@x.org'', ''password'' \<mapsto> VStr ''12345678'',
              ''is_superuser'' \<mapsto> VBool True, ''is_active'' \<mapsto> VBool False]"]
  have "\<exists>r. db' ''user'' = empty_database ''user'' @ [r] \<and> col r ''is_superuser'' = VBool False \<and>
           col r ''is_active'' = VBool True" by blast
  with r show ?thesis by (auto simp: empty_database_def)
qed

end
